theory Spec2Isabelle
  imports Complex_Main
begin

section \<open>The document\<close>

text \<open>
  The script of \<^verbatim>\<open>src/script.js\<close> works on the browser's document. An element is a
  node of a tree; \<open>nid\<close> is the identity of the JavaScript object (what \<^verbatim>\<open>===\<close>
  compares), \<open>ident\<close> the \<^verbatim>\<open>id\<close> attribute, \<open>classes\<close> the token list behind
  \<^verbatim>\<open>classList\<close>, \<open>inline\<close> the inline \<^verbatim>\<open>style\<close>, \<open>data_delay\<close> the attribute
  \<^verbatim>\<open>data-delay\<close>, \<open>href\<close> the attribute \<^verbatim>\<open>href\<close>, and \<open>box\<close> what
  \<^verbatim>\<open>getBoundingClientRect()\<close> reports for the element, and \<open>onclick\<close> the script of
  the attribute \<^verbatim>\<open>onclick\<close>; the only one that the script writes is the one of the
  button of the success panel. Lengths and coordinates are rational numbers. Text nodes
  are left out.
\<close>

datatype cssval = Txt string | Px rat

datatype inline_script = ClickCloseOrCloseModal

record rect =
  top :: rat
  left :: rat
  width :: rat
  height :: rat

record attrs =
  nid :: nat
  tag :: string
  ident :: string
  classes :: "string list"
  inline :: "(string \<times> cssval) list"
  data_delay :: "string option"
  href :: "string option"
  box :: rect
  onclick :: "inline_script option"

datatype node = Node (attr: attrs) (kids: "node list")

definition zero_rect :: rect where
  "zero_rect = \<lparr>top = 0, left = 0, width = 0, height = 0\<rparr>"

text \<open>\<^verbatim>\<open>document.createElement(t)\<close> with the class list \<open>cs\<close> and the children \<open>ks\<close>.\<close>

definition elem :: "nat \<Rightarrow> string \<Rightarrow> string list \<Rightarrow> node list \<Rightarrow> node" where
  "elem i t cs ks =
     Node \<lparr>nid = i, tag = t, ident = [], classes = cs, inline = [], data_delay = None,
           href = None, box = zero_rect, onclick = None\<rparr> ks"

text \<open>Document order: a node, then its descendants, then its later siblings.\<close>

primrec nodes_of :: "node \<Rightarrow> node list" where
  "nodes_of (Node a ks) = Node a ks # concat (map nodes_of ks)"

definition all_nodes :: "node list \<Rightarrow> node list" where
  "all_nodes ns = concat (map nodes_of ns)"

text \<open>
  A change to the object \<open>i\<close>: the tree is rebuilt with \<open>f\<close> applied to the node whose
  identity is \<open>i\<close> (to every such node, were an identity used twice). An object that is
  not in the tree is not represented, so a change to it is not seen in the document.
\<close>

primrec modify :: "nat \<Rightarrow> (node \<Rightarrow> node) \<Rightarrow> node \<Rightarrow> node" where
  "modify i f (Node a ks) =
     (if nid a = i then f (Node a (map (modify i f) ks)) else Node a (map (modify i f) ks))"

text \<open>\<^verbatim>\<open>node.remove()\<close>: the node leaves its parent's children; elsewhere nothing changes.\<close>

primrec prune :: "nat \<Rightarrow> node \<Rightarrow> node" where
  "prune i (Node a ks) = Node a (filter (\<lambda>k. nid (attr k) \<noteq> i) (map (prune i) ks))"

definition remove_from :: "nat \<Rightarrow> node list \<Rightarrow> node list" where
  "remove_from i ns = filter (\<lambda>k. nid (attr k) \<noteq> i) (map (prune i) ns)"

definition has_class :: "string \<Rightarrow> node \<Rightarrow> bool" where
  "has_class c n = (c \<in> set (classes (attr n)))"

definition has_id :: "string \<Rightarrow> node \<Rightarrow> bool" where
  "has_id s n = (ident (attr n) = s)"

definition is_node :: "nat \<Rightarrow> node \<Rightarrow> bool" where
  "is_node i n = (nid (attr n) = i)"

text \<open>\<^verbatim>\<open>classList.add\<close> and \<^verbatim>\<open>classList.remove\<close> on a token list.\<close>

definition add_class :: "string \<Rightarrow> node \<Rightarrow> node" where
  "add_class c n =
     (if c \<in> set (classes (attr n)) then n
      else Node ((attr n)\<lparr>classes := classes (attr n) @ [c]\<rparr>) (kids n))"

definition remove_class :: "string \<Rightarrow> node \<Rightarrow> node" where
  "remove_class c n = Node ((attr n)\<lparr>classes := removeAll c (classes (attr n))\<rparr>) (kids n)"

text \<open>\<^verbatim>\<open>el.style.p = v\<close>.\<close>

definition set_prop :: "string \<Rightarrow> cssval \<Rightarrow> (string \<times> cssval) list \<Rightarrow> (string \<times> cssval) list" where
  "set_prop p v sty =
     (if p \<in> fst ` set sty then map (\<lambda>(q, w). if q = p then (q, v) else (q, w)) sty
      else sty @ [(p, v)])"

definition set_style :: "string \<Rightarrow> cssval \<Rightarrow> node \<Rightarrow> node" where
  "set_style p v n = Node ((attr n)\<lparr>inline := set_prop p v (inline (attr n))\<rparr>) (kids n)"

definition append_child :: "node \<Rightarrow> node \<Rightarrow> node" where
  "append_child c n = Node (attr n) (kids n @ [c])"

section \<open>The state of the page\<close>

datatype error = TypeError | SyntaxError

text \<open>The closures the script hands to \<^verbatim>\<open>setTimeout\<close> and \<^verbatim>\<open>requestAnimationFrame\<close>.\<close>

datatype callback =
    AddVisible nat
  | ShowDemoModal
  | RemoveRipple nat
  | FinishClose nat

datatype frame_callback = Activate nat

text \<open>The closures the script hands to \<^verbatim>\<open>addEventListener\<close>, with what they capture.\<close>

datatype handler =
    AnchorClick nat
  | CtaClick nat
  | VideoClick
  | CloseClick nat
  | BackdropClick nat
  | SubmitForm nat
  | HeaderScroll "nat option"
  | KeyDown

datatype target = Window | Document | Elem nat

record state =
  now :: nat
  next_id :: nat
  head_kids :: "node list"
  body_kids :: "node list"
  body_overflow :: string
  timers :: "(nat \<times> callback) list"
  frames :: "frame_callback list"
  listeners :: "(target \<times> string \<times> handler) list"
  observed :: "nat list"
  observed_headers :: "nat list"
  page_y :: rat
  scroll_requests :: "rat list"
  last_scroll :: rat
  uncaught :: "error list"

type_synonym outcome = "error option \<times> state"

definition doc_nodes :: "state \<Rightarrow> node list" where
  "doc_nodes st = all_nodes (head_kids st) @ all_nodes (body_kids st)"

definition getElementById :: "string \<Rightarrow> state \<Rightarrow> node option" where
  "getElementById s st = List.find (has_id s) (doc_nodes st)"

definition query_class :: "string \<Rightarrow> state \<Rightarrow> node option" where
  "query_class c st = List.find (has_class c) (doc_nodes st)"

definition find_node :: "nat \<Rightarrow> state \<Rightarrow> node option" where
  "find_node i st = List.find (is_node i) (doc_nodes st)"

definition modify_doc :: "nat \<Rightarrow> (node \<Rightarrow> node) \<Rightarrow> state \<Rightarrow> state" where
  "modify_doc i f st =
     st\<lparr>head_kids := map (modify i f) (head_kids st),
        body_kids := map (modify i f) (body_kids st)\<rparr>"

definition remove_doc :: "nat \<Rightarrow> state \<Rightarrow> state" where
  "remove_doc i st =
     st\<lparr>head_kids := remove_from i (head_kids st),
        body_kids := remove_from i (body_kids st)\<rparr>"

text \<open>
  \<^verbatim>\<open>setTimeout(cb, ms)\<close> with \<open>ms\<close> already a number of time units: the closure is
  queued with the time at which it is due.
\<close>

definition setTimeout :: "callback \<Rightarrow> nat \<Rightarrow> state \<Rightarrow> state" where
  "setTimeout cb ms st = st\<lparr>timers := timers st @ [(now st + ms, cb)]\<rparr>"

definition addEventListener :: "target \<Rightarrow> string \<Rightarrow> handler \<Rightarrow> state \<Rightarrow> state" where
  "addEventListener t ty h st = st\<lparr>listeners := listeners st @ [(t, ty, h)]\<rparr>"

section \<open>The modal functions\<close>

text \<open>\<^verbatim>\<open>addModalStyles\<close>: returns at once when an element with the marker id exists.\<close>

definition addModalStyles :: "state \<Rightarrow> state" where
  "addModalStyles st =
     (case getElementById ''modal-styles'' st of
        Some _ \<Rightarrow> st
      | None \<Rightarrow>
          st\<lparr>head_kids :=
                head_kids st @
                  [Node ((attr (elem (next_id st) ''style'' [] []))\<lparr>ident := ''modal-styles''\<rparr>) []],
             next_id := Suc (next_id st)\<rparr>)"

text \<open>\<^verbatim>\<open>closeModal(overlay)\<close>.\<close>

definition closeModal :: "nat \<Rightarrow> state \<Rightarrow> state" where
  "closeModal ov st = setTimeout (FinishClose ov) 300 (modify_doc ov (remove_class ''active'') st)"

text \<open>
  The overlay of \<^verbatim>\<open>showDemoModal\<close>, as \<^verbatim>\<open>innerHTML\<close> parses the template: the objects
  are numbered from \<open>k\<close> in document order.
\<close>

definition demo_overlay :: "nat \<Rightarrow> node" where
  "demo_overlay k =
     elem k ''div'' [''modal-overlay'']
       [elem (k + 1) ''div'' [''modal-content'']
          [elem (k + 2) ''button'' [''modal-close''] [],
           elem (k + 3) ''div'' [''modal-icon''] [],
           elem (k + 4) ''h3'' [''modal-title''] [],
           elem (k + 5) ''p'' [''modal-text'']
             [elem (k + 6) ''br'' [] [], elem (k + 7) ''b'' [] [], elem (k + 8) ''br'' [] []]]]"

definition video_overlay :: "nat \<Rightarrow> node" where
  "video_overlay k =
     elem k ''div'' [''modal-overlay'']
       [elem (k + 1) ''div'' [''modal-content'', ''video-modal'']
          [elem (k + 2) ''button'' [''modal-close''] [],
           elem (k + 3) ''div'' [''video-placeholder'']
             [elem (k + 4) ''div'' [''play-icon''] [], elem (k + 5) ''p'' [] []]]]"

text \<open>
  What both open functions do up to the registration of the two close handlers:
  create the overlay, add the styles, append it to the body, lock the scrolling of the
  body, ask for the frame that adds \<^verbatim>\<open>active\<close>, and register the click handler of the
  close control and of the backdrop. \<^verbatim>\<open>overlay.querySelector('.modal-close')\<close> is a
  lookup among the overlay's descendants; a missing control is a \<^verbatim>\<open>TypeError\<close>, after
  which the rest is not run.
\<close>

definition open_overlay :: "node \<Rightarrow> nat \<Rightarrow> state \<Rightarrow> outcome" where
  "open_overlay ov fresh st =
     (let st1 = addModalStyles (st\<lparr>next_id := fresh\<rparr>);
          st2 = st1\<lparr>body_kids := body_kids st1 @ [ov], body_overflow := ''hidden''\<rparr>;
          st3 = st2\<lparr>frames := frames st2 @ [Activate (nid (attr ov))]\<rparr>
      in case List.find (has_class ''modal-close'') (all_nodes (kids ov)) of
           None \<Rightarrow> (Some TypeError, st3)
         | Some c \<Rightarrow>
             (None,
              addEventListener (Elem (nid (attr ov))) ''click'' (BackdropClick (nid (attr ov)))
                (addEventListener (Elem (nid (attr c))) ''click'' (CloseClick (nid (attr ov))) st3)))"

text \<open>
  \<^verbatim>\<open>showDemoModal\<close>: after the close handlers it looks up \<^verbatim>\<open>#demoForm\<close> among the
  overlay's descendants and calls \<^verbatim>\<open>addEventListener\<close> on the result.
\<close>

definition showDemoModal :: "state \<Rightarrow> outcome" where
  "showDemoModal st =
     (let ov = demo_overlay (next_id st)
      in case open_overlay ov (next_id st + 9) st of
           (Some e, st1) \<Rightarrow> (Some e, st1)
         | (None, st1) \<Rightarrow>
             (case List.find (has_id ''demoForm'') (all_nodes (kids ov)) of
                None \<Rightarrow> (Some TypeError, st1)
              | Some f \<Rightarrow>
                  (None, addEventListener (Elem (nid (attr f))) ''submit''
                           (SubmitForm (nid (attr ov))) st1)))"

definition showVideoModal :: "state \<Rightarrow> outcome" where
  "showVideoModal st = open_overlay (video_overlay (next_id st)) (next_id st + 6) st"

text \<open>
  \<^verbatim>\<open>showSuccessMessage(overlay)\<close>. The panel that \<^verbatim>\<open>innerHTML\<close> parses is numbered
  from \<open>k\<close>. An overlay that has left the document is not represented: the call then
  changes nothing that the document shows.
\<close>

definition success_panel :: "nat \<Rightarrow> node" where
  "success_panel k =
     elem k ''div'' [''success-content'']
       [elem (k + 1) ''div'' [''success-icon''] [],
        elem (k + 2) ''h3'' [''modal-title''] [],
        elem (k + 3) ''p'' [''modal-text''] [],
        Node ((attr (elem (k + 4) ''button'' [''modal-submit''] []))
                \<lparr>onclick := Some ClickCloseOrCloseModal\<rparr>) []]"

definition showSuccessMessage :: "nat \<Rightarrow> state \<Rightarrow> outcome" where
  "showSuccessMessage ov st =
     (case find_node ov st of
        None \<Rightarrow> (None, st)
      | Some overlay \<Rightarrow>
          (case List.find (has_class ''modal-content'') (all_nodes (kids overlay)) of
             None \<Rightarrow> (Some TypeError, st)
           | Some content \<Rightarrow>
               (let k = next_id st;
                    c = nid (attr content);
                    st1 = modify_doc c (\<lambda>n. Node (attr n) [success_panel k]) (st\<lparr>next_id := k + 5\<rparr>);
                    closeBtn = elem (k + 5) ''button'' [''modal-close''] [];
                    st2 = addEventListener (Elem (k + 5)) ''click'' (CloseClick ov)
                            (st1\<lparr>next_id := k + 6\<rparr>)
                in (None, modify_doc c (\<lambda>n. Node (attr n) (closeBtn # kids n)) st2))))"

section \<open>The ripple\<close>

record event =
  target_of :: target
  clientX :: rat
  clientY :: rat
  key :: string

text \<open>
  \<^verbatim>\<open>createRipple(event, button)\<close>. A button outside the document has the all-zero
  rectangle, as \<^verbatim>\<open>getBoundingClientRect\<close> reports it.
\<close>

definition ripple_css :: "rat \<Rightarrow> rat \<Rightarrow> rat \<Rightarrow> (string \<times> cssval) list" where
  "ripple_css sz x y =
     [(''position'', Txt ''absolute''), (''width'', Px sz), (''height'', Px sz),
      (''left'', Px x), (''top'', Px y),
      (''background'', Txt ''rgba(255, 255, 255, 0.3)''), (''border-radius'', Txt ''50%''),
      (''transform'', Txt ''scale(0)''), (''animation'', Txt ''ripple 0.6s ease-out''),
      (''pointer-events'', Txt ''none'')]"

text \<open>The span with its \<^verbatim>\<open>cssText\<close>, sized and placed from the button's box and the click.\<close>

definition ripple_node :: "event \<Rightarrow> nat \<Rightarrow> state \<Rightarrow> node" where
  "ripple_node e b st =
     (let r = (case find_node b st of None \<Rightarrow> zero_rect | Some n \<Rightarrow> box (attr n));
          sz = max (width r) (height r);
          x = clientX e - left r - sz / 2;
          y = clientY e - top r - sz / 2
      in Node ((attr (elem (next_id st) ''span'' [] []))\<lparr>inline := ripple_css sz x y\<rparr>) [])"

text \<open>The keyframes, added when no element has the marker id.\<close>

definition add_ripple_styles :: "state \<Rightarrow> state" where
  "add_ripple_styles st =
     (case getElementById ''ripple-styles'' st of
        Some _ \<Rightarrow> st
      | None \<Rightarrow>
          st\<lparr>head_kids :=
                head_kids st @
                  [Node ((attr (elem (next_id st) ''style'' [] []))\<lparr>ident := ''ripple-styles''\<rparr>) []],
             next_id := Suc (next_id st)\<rparr>)"

definition createRipple :: "event \<Rightarrow> nat \<Rightarrow> state \<Rightarrow> state" where
  "createRipple e b st =
     (let ripple = ripple_node e b st;
          st1 = add_ripple_styles (st\<lparr>next_id := Suc (next_id st)\<rparr>);
          st2 = modify_doc b (set_style ''position'' (Txt ''relative'')) st1;
          st3 = modify_doc b (set_style ''overflow'' (Txt ''hidden'')) st2;
          st4 = modify_doc b (append_child ripple) st3
      in setTimeout (RemoveRipple (nid (attr ripple))) 600 st4)"

section \<open>What the browser supplies\<close>

text \<open>
  Two functions of the platform are parameters: JavaScript's conversion of a string to
  a number, and \<^verbatim>\<open>document.querySelector\<close> on a selector that is not a literal of the
  script (it gets the selector and the roots of the document, and raises on a selector
  that does not parse). Numbers are the integers and \<^verbatim>\<open>NaN\<close>.
\<close>

datatype jsnum = Num int | NaN

record platform =
  toNumber :: "string \<Rightarrow> jsnum"
  querySelector :: "string \<Rightarrow> node list \<Rightarrow> error + node option"

datatype jsval = Undefined | Str string | Numv jsnum

fun truthy :: "jsval \<Rightarrow> bool" where
  "truthy Undefined = False"
| "truthy (Str s) = (s \<noteq> [])"
| "truthy (Numv (Num k)) = (k \<noteq> 0)"
| "truthy (Numv NaN) = False"

text \<open>\<^verbatim>\<open>a || b\<close>.\<close>

definition js_or :: "jsval \<Rightarrow> jsval \<Rightarrow> jsval" where
  "js_or a b = (if truthy a then a else b)"

fun to_number :: "platform \<Rightarrow> jsval \<Rightarrow> jsnum" where
  "to_number pf Undefined = NaN"
| "to_number pf (Str s) = toNumber pf s"
| "to_number pf (Numv n) = n"

text \<open>\<^verbatim>\<open>a * k\<close> for an integer literal \<open>k\<close>.\<close>

definition js_times :: "platform \<Rightarrow> jsval \<Rightarrow> int \<Rightarrow> jsnum" where
  "js_times pf a k = (case to_number pf a of Num x \<Rightarrow> Num (x * k) | NaN \<Rightarrow> NaN)"

text \<open>
  The delay that \<^verbatim>\<open>setTimeout\<close> makes of its second argument: the number is converted
  to a 32-bit signed integer (\<^verbatim>\<open>NaN\<close> to 0), and a negative delay is 0.
\<close>

definition timeout_of :: "jsnum \<Rightarrow> nat" where
  "timeout_of n =
     (case n of
        NaN \<Rightarrow> 0
      | Num x \<Rightarrow> (let w = (x + 2 ^ 31) mod 2 ^ 32 - 2 ^ 31 in if w < 0 then 0 else nat w))"

section \<open>The reveal on scroll\<close>

text \<open>\<^verbatim>\<open>entry.target.dataset.delay\<close>.\<close>

definition dataset_delay :: "nat \<Rightarrow> state \<Rightarrow> jsval" where
  "dataset_delay t st =
     (case find_node t st of
        None \<Rightarrow> Undefined
      | Some n \<Rightarrow> (case data_delay (attr n) of None \<Rightarrow> Undefined | Some s \<Rightarrow> Str s))"

text \<open>
  The callback of the first observer on one entry \<open>(target, isIntersecting)\<close>, and on the
  list of entries of one notification.
\<close>

definition revealEntry :: "platform \<Rightarrow> nat \<times> bool \<Rightarrow> state \<Rightarrow> state" where
  "revealEntry pf entry st =
     (if snd entry then
        (let delay = js_or (dataset_delay (fst entry) st) (Numv (Num 0));
             st1 = setTimeout (AddVisible (fst entry)) (timeout_of (js_times pf delay 100)) st
         in st1\<lparr>observed := removeAll (fst entry) (observed st1)\<rparr>)
      else st)"

definition revealCallback :: "platform \<Rightarrow> (nat \<times> bool) list \<Rightarrow> state \<Rightarrow> state" where
  "revealCallback pf entries st = foldl (\<lambda>s entry. revealEntry pf entry s) st entries"

text \<open>The callback of the second observer, for the section headers.\<close>

definition headerEntry :: "nat \<times> bool \<Rightarrow> state \<Rightarrow> state" where
  "headerEntry entry st =
     (if snd entry then
        (let st1 = modify_doc (fst entry) (set_style ''opacity'' (Txt ''1'')) st;
             st2 = modify_doc (fst entry) (set_style ''transform'' (Txt ''translateY(0)'')) st1
         in st2\<lparr>observed_headers := removeAll (fst entry) (observed_headers st2)\<rparr>)
      else st)"

definition headerCallback :: "(nat \<times> bool) list \<Rightarrow> state \<Rightarrow> state" where
  "headerCallback entries st = foldl (\<lambda>s entry. headerEntry entry s) st entries"

text \<open>
  A notification of the browser: an observer is told only about targets that it
  observes at that moment.
\<close>

definition notify :: "platform \<Rightarrow> (nat \<times> bool) list \<Rightarrow> state \<Rightarrow> state" where
  "notify pf entries st = revealCallback pf [e \<leftarrow> entries. fst e \<in> set (observed st)] st"

section \<open>Timers and frames\<close>

text \<open>What the closure of a timer does when it runs.\<close>

fun fire :: "callback \<Rightarrow> state \<Rightarrow> outcome" where
  "fire (AddVisible t) st = (None, modify_doc t (add_class ''visible'') st)"
| "fire ShowDemoModal st = showDemoModal st"
| "fire (RemoveRipple r) st = (None, remove_doc r st)"
| "fire (FinishClose ov) st = (None, (remove_doc ov st)\<lparr>body_overflow := []\<rparr>)"

text \<open>
  An exception that leaves a timer's closure or an event listener has no caller in the
  script: the browser reports it, which the state records in \<open>uncaught\<close>.
\<close>

definition report :: "outcome \<Rightarrow> state" where
  "report r = (case fst r of None \<Rightarrow> snd r | Some e \<Rightarrow> (snd r)\<lparr>uncaught := uncaught (snd r) @ [e]\<rparr>)"

definition run_timer :: "nat \<times> callback \<Rightarrow> state \<Rightarrow> state" where
  "run_timer p st = report (fire (snd p) (st\<lparr>now := max (now st) (fst p)\<rparr>))"

text \<open>
  \<open>dt\<close> time units pass: the timers due by then run, the earliest first and timers due
  at the same time in the order of their \<^verbatim>\<open>setTimeout\<close> calls. No closure of a timer of
  this script starts a timer.
\<close>

definition advance :: "nat \<Rightarrow> state \<Rightarrow> state" where
  "advance dt st =
     (let t = now st + dt;
          due = [p \<leftarrow> timers st. fst p \<le> t];
          later = [p \<leftarrow> timers st. \<not> fst p \<le> t]
      in (foldl (\<lambda>s p. run_timer p s) (st\<lparr>timers := later\<rparr>) (sort_key fst due))\<lparr>now := t\<rparr>)"

fun run_frame :: "frame_callback \<Rightarrow> state \<Rightarrow> state" where
  "run_frame (Activate ov) st = modify_doc ov (add_class ''active'') st"

definition animation_frame :: "state \<Rightarrow> state" where
  "animation_frame st = foldl (\<lambda>s c. run_frame c s) (st\<lparr>frames := []\<rparr>) (frames st)"

section \<open>The event handlers\<close>

text \<open>
  A handler returns whether it called \<^verbatim>\<open>preventDefault\<close>, the exception that left it,
  if any, and the state.

  The click handler of \<^verbatim>\<open>initSmoothScroll\<close>, on the text of the link's \<^verbatim>\<open>href\<close>.
  \<^verbatim>\<open>window.scrollTo\<close> is recorded as a request with its \<^verbatim>\<open>top\<close>.
\<close>

type_synonym reply = "bool \<times> error option \<times> state"

definition onAnchorClick :: "platform \<Rightarrow> string \<Rightarrow> state \<Rightarrow> reply" where
  "onAnchorClick pf targetId st =
     (if targetId = ''#'' then (True, None, st)
      else
        (case querySelector pf targetId (head_kids st @ body_kids st) of
           Inl e \<Rightarrow> (True, Some e, st)
         | Inr None \<Rightarrow> (True, None, st)
         | Inr (Some targetElement) \<Rightarrow>
             (let headerOffset = 80;
                  elementPosition = top (box (attr targetElement));
                  offsetPosition = elementPosition + page_y st - headerOffset
              in (True, None, st\<lparr>scroll_requests := scroll_requests st @ [offsetPosition]\<rparr>))))"

text \<open>The click handler of a call-to-action button, and of the video button.\<close>

definition onCtaClick :: "event \<Rightarrow> nat \<Rightarrow> state \<Rightarrow> reply" where
  "onCtaClick e button st = (False, None, setTimeout ShowDemoModal 300 (createRipple e button st))"

definition onVideoClick :: "state \<Rightarrow> reply" where
  "onVideoClick st = (False, showVideoModal st)"

text \<open>The scroll handler of \<^verbatim>\<open>initHeaderScroll\<close>; \<open>header\<close> is what the lookup at start gave.\<close>

definition onScroll :: "nat option \<Rightarrow> state \<Rightarrow> reply" where
  "onScroll header st =
     (let currentScroll = page_y st
      in case header of
           None \<Rightarrow> (False, Some TypeError, st)
         | Some h \<Rightarrow>
             (False, None,
              (modify_doc h
                 (set_style ''box-shadow''
                    (Txt (if currentScroll > 50 then ''0 4px 30px rgba(0, 0, 0, 0.1)'' else ''none'')))
                 st)\<lparr>last_scroll := currentScroll\<rparr>))"

text \<open>The \<^verbatim>\<open>keydown\<close> handler of the document.\<close>

definition onKeydown :: "event \<Rightarrow> state \<Rightarrow> reply" where
  "onKeydown e st =
     (if key e = ''Escape'' then
        (case query_class ''modal-overlay'' st of
           Some overlay \<Rightarrow> (False, None, closeModal (nid (attr overlay)) st)
         | None \<Rightarrow> (False, None, st))
      else (False, None, st))"

text \<open>
  A link that is registered has an \<^verbatim>\<open>href\<close>, and a link that has left the document
  gets no click.
\<close>

fun run_handler :: "platform \<Rightarrow> handler \<Rightarrow> event \<Rightarrow> state \<Rightarrow> reply" where
  "run_handler pf (AnchorClick l) e st =
     (case find_node l st of
        None \<Rightarrow> (True, None, st)
      | Some link \<Rightarrow>
          (case href (attr link) of None \<Rightarrow> (True, None, st) | Some h \<Rightarrow> onAnchorClick pf h st))"
| "run_handler pf (CtaClick b) e st = onCtaClick e b st"
| "run_handler pf VideoClick e st = onVideoClick st"
| "run_handler pf (CloseClick ov) e st = (False, None, closeModal ov st)"
| "run_handler pf (BackdropClick ov) e st =
     (if target_of e = Elem ov then (False, None, closeModal ov st) else (False, None, st))"
| "run_handler pf (SubmitForm ov) e st = (True, showSuccessMessage ov st)"
| "run_handler pf (HeaderScroll h) e st = onScroll h st"
| "run_handler pf KeyDown e st = onKeydown e st"

section \<open>Dispatch\<close>

text \<open>
  The path of an event: from the target up through its ancestors to the document and
  the window. The listeners of each stop run in the order of registration; an exception
  of one is reported and the next still runs.
\<close>

primrec path_in :: "nat \<Rightarrow> node \<Rightarrow> nat list" where
  "path_in i (Node a ks) =
     (if nid a = i then [i]
      else (case filter (\<lambda>p. p \<noteq> []) (map (path_in i) ks) of
              [] \<Rightarrow> []
            | p # _ \<Rightarrow> p @ [nid a]))"

definition event_path :: "target \<Rightarrow> state \<Rightarrow> target list" where
  "event_path t st =
     (case t of
        Window \<Rightarrow> [Window]
      | Document \<Rightarrow> [Document, Window]
      | Elem i \<Rightarrow>
          (case filter (\<lambda>p. p \<noteq> []) (map (path_in i) (head_kids st @ body_kids st)) of
             [] \<Rightarrow> [Elem i]
           | p # _ \<Rightarrow> map Elem p @ [Document, Window]))"

definition handlers_at :: "string \<Rightarrow> state \<Rightarrow> target \<Rightarrow> handler list" where
  "handlers_at ty st t = map (\<lambda>l. snd (snd l)) [l \<leftarrow> listeners st. fst l = t \<and> fst (snd l) = ty]"

definition deliver :: "platform \<Rightarrow> event \<Rightarrow> bool \<times> state \<Rightarrow> handler \<Rightarrow> bool \<times> state" where
  "deliver pf e acc h =
     (let r = run_handler pf h e (snd acc) in (fst acc \<or> fst r, report (snd r)))"

text \<open>
  The listeners alone, as a call of \<^verbatim>\<open>click()\<close> from a script runs them.
\<close>

definition run_listeners :: "platform \<Rightarrow> string \<Rightarrow> event \<Rightarrow> state \<Rightarrow> bool \<times> state" where
  "run_listeners pf ty e st =
     foldl (deliver pf e) (False, st) (concat (map (handlers_at ty st) (event_path (target_of e) st)))"

text \<open>
  \<^verbatim>\<open>el.closest('.c')\<close>: the nearest of the element and its ancestors with the class. An
  element outside the document is not represented and has none.
\<close>

definition closest_class :: "string \<Rightarrow> nat \<Rightarrow> state \<Rightarrow> nat option" where
  "closest_class c i st =
     List.find (\<lambda>j. case find_node j st of None \<Rightarrow> False | Some n \<Rightarrow> has_class c n)
       (case filter (\<lambda>p. p \<noteq> []) (map (path_in i) (head_kids st @ body_kids st)) of
          [] \<Rightarrow> []
        | p # _ \<Rightarrow> p)"

text \<open>
  The \<^verbatim>\<open>onclick\<close> of the button of the success panel:
  \<^verbatim>\<open>this.closest('.modal-overlay').querySelector('.modal-close')?.click() || closeModal(this.closest('.modal-overlay'))\<close>.
  \<^verbatim>\<open>click()\<close> returns \<^verbatim>\<open>undefined\<close>, so \<^verbatim>\<open>closeModal\<close> is called whether or not a
  close control was found and clicked. The click that the script makes is at the point
  (0, 0); the close control has no ancestor with an \<^verbatim>\<open>onclick\<close> in any state that the
  script builds, so that click runs listeners only.
\<close>

definition submit_onclick :: "platform \<Rightarrow> nat \<Rightarrow> state \<Rightarrow> outcome" where
  "submit_onclick pf this st =
     (case closest_class ''modal-overlay'' this st of
        None \<Rightarrow> (Some TypeError, st)
      | Some ov \<Rightarrow>
          (let st1 =
                 (case find_node ov st of
                    None \<Rightarrow> st
                  | Some overlay \<Rightarrow>
                      (case List.find (has_class ''modal-close'') (all_nodes (kids overlay)) of
                         None \<Rightarrow> st
                       | Some c \<Rightarrow>
                           snd (run_listeners pf ''click''
                                  \<lparr>target_of = Elem (nid (attr c)), clientX = 0, clientY = 0, key = []\<rparr>
                                  st)))
           in case closest_class ''modal-overlay'' this st1 of
                None \<Rightarrow> (Some TypeError, st1)
              | Some ov' \<Rightarrow> (None, closeModal ov' st1)))"

text \<open>
  One stop of the path: the script of the \<^verbatim>\<open>onclick\<close> attribute, for a click on an
  element that has one, and then the listeners.
\<close>

definition run_onclick :: "platform \<Rightarrow> string \<Rightarrow> target \<Rightarrow> bool \<times> state \<Rightarrow> bool \<times> state" where
  "run_onclick pf ty t acc =
     (if ty = ''click'' then
        (case t of
           Elem i \<Rightarrow>
             (case find_node i (snd acc) of
                None \<Rightarrow> acc
              | Some n \<Rightarrow>
                  (case onclick (attr n) of
                     None \<Rightarrow> acc
                   | Some ClickCloseOrCloseModal \<Rightarrow> (fst acc, report (submit_onclick pf i (snd acc)))))
         | _ \<Rightarrow> acc)
      else acc)"

definition visit ::
  "platform \<Rightarrow> string \<Rightarrow> event \<Rightarrow> state \<Rightarrow> bool \<times> state \<Rightarrow> target \<Rightarrow> bool \<times> state" where
  "visit pf ty e st acc t = foldl (deliver pf e) (run_onclick pf ty t acc) (handlers_at ty st t)"

definition dispatch :: "platform \<Rightarrow> string \<Rightarrow> event \<Rightarrow> state \<Rightarrow> bool \<times> state" where
  "dispatch pf ty e st = foldl (visit pf ty e st) (False, st) (event_path (target_of e) st)"

section \<open>Start-up\<close>

definition is_hash_link :: "node \<Rightarrow> bool" where
  "is_hash_link n =
     (tag (attr n) = ''a'' \<and>
      (case href (attr n) of None \<Rightarrow> False | Some h \<Rightarrow> take 1 h = ''#''))"

definition initSmoothScroll :: "state \<Rightarrow> state" where
  "initSmoothScroll st =
     foldl (\<lambda>s link. addEventListener (Elem (nid (attr link))) ''click'' (AnchorClick (nid (attr link))) s)
       st (filter is_hash_link (doc_nodes st))"

text \<open>\<^verbatim>\<open>observer.observe(t)\<close>: a target that is observed already is not added again.\<close>

definition observe :: "nat list \<Rightarrow> nat \<Rightarrow> nat list" where
  "observe obs t = (if t \<in> set obs then obs else obs @ [t])"

definition hide_header :: "state \<Rightarrow> node \<Rightarrow> state" where
  "hide_header st header =
     (let h = nid (attr header);
          st1 = modify_doc h (set_style ''opacity'' (Txt ''0'')) st;
          st2 = modify_doc h (set_style ''transform'' (Txt ''translateY(30px)'')) st1;
          st3 = modify_doc h (set_style ''transition'' (Txt ''all 0.6s ease'')) st2
      in st3\<lparr>observed_headers := observe (observed_headers st3) h\<rparr>)"

definition initScrollAnimations :: "state \<Rightarrow> state" where
  "initScrollAnimations st =
     (let animatedElements =
            filter (has_class ''workflow-card'') (doc_nodes st) @
            filter (has_class ''config-item'') (doc_nodes st) @
            filter (has_class ''feature-item'') (doc_nodes st);
          st1 = st\<lparr>observed := foldl observe [] (map (\<lambda>n. nid (attr n)) animatedElements)\<rparr>;
          sectionHeaders = filter (has_class ''section-header'') (doc_nodes st1)
      in foldl hide_header (st1\<lparr>observed_headers := []\<rparr>) sectionHeaders)"

definition register_cta :: "state \<Rightarrow> node option \<Rightarrow> state" where
  "register_cta st button =
     (case button of
        None \<Rightarrow> st
      | Some b \<Rightarrow> addEventListener (Elem (nid (attr b))) ''click'' (CtaClick (nid (attr b))) st)"

definition initButtonInteractions :: "state \<Rightarrow> state" where
  "initButtonInteractions st =
     (let heroCta = getElementById ''heroCta'' st;
          ctaButton = getElementById ''ctaButton'' st;
          headerCta = query_class ''header-cta'' st;
          ctaButtons = [heroCta, ctaButton, headerCta];
          st1 = foldl register_cta st ctaButtons
      in case query_class ''btn-secondary'' st1 of
           None \<Rightarrow> st1
         | Some videoBtn \<Rightarrow> addEventListener (Elem (nid (attr videoBtn))) ''click'' VideoClick st1)"

definition initHeaderScroll :: "state \<Rightarrow> state" where
  "initHeaderScroll st =
     addEventListener Window ''scroll''
       (HeaderScroll (map_option (\<lambda>n. nid (attr n)) (getElementById ''header'' st)))
       (st\<lparr>last_scroll := 0\<rparr>)"

text \<open>
  The script as a whole: the \<^verbatim>\<open>keydown\<close> listener is registered when the script is
  loaded, the four modules when the document is ready.
\<close>

definition boot :: "state \<Rightarrow> state" where
  "boot st =
     initHeaderScroll (initButtonInteractions (initScrollAnimations (initSmoothScroll
       (addEventListener Document ''keydown'' KeyDown st))))"

text \<open>A page as the browser hands it to the script: the body's children \<open>ns\<close>, nothing pending.\<close>

definition page :: "node list \<Rightarrow> nat \<Rightarrow> state" where
  "page ns fresh =
     \<lparr>now = 0, next_id = fresh, head_kids = [], body_kids = ns, body_overflow = [],
      timers = [], frames = [], listeners = [], observed = [], observed_headers = [],
      page_y = 0, scroll_requests = [], last_scroll = 0, uncaught = []\<rparr>"

section \<open>Observations\<close>

text \<open>The overlays of the document, in document order.\<close>

definition overlays :: "state \<Rightarrow> node list" where
  "overlays st = filter (has_class ''modal-overlay'') (doc_nodes st)"

definition overlay_ids :: "state \<Rightarrow> nat list" where
  "overlay_ids st = map (\<lambda>n. nid (attr n)) (overlays st)"

text \<open>
  What a projection \<open>g\<close> shows of the elements whose attributes satisfy \<open>P\<close>, in document
  order.
\<close>

definition view :: "(attrs \<Rightarrow> bool) \<Rightarrow> (attrs \<Rightarrow> 'b) \<Rightarrow> state \<Rightarrow> 'b list" where
  "view P g st = map g (filter P (map attr (doc_nodes st)))"

text \<open>The identities in use, and the \<^verbatim>\<open>id\<close>s of the style elements.\<close>

definition ids_of :: "node list \<Rightarrow> nat list" where
  "ids_of ns = map (\<lambda>n. nid (attr n)) (all_nodes ns)"

definition style_ids :: "state \<Rightarrow> string list" where
  "style_ids st = map (\<lambda>n. ident (attr n)) [n \<leftarrow> doc_nodes st. tag (attr n) = ''style'']"

text \<open>The attributes of the element \<open>i\<close>, when it is in the document.\<close>

definition attrs_of :: "nat \<Rightarrow> state \<Rightarrow> attrs option" where
  "attrs_of i st = map_option attr (find_node i st)"

definition is_visible :: "nat \<Rightarrow> state \<Rightarrow> bool" where
  "is_visible i st =
     (case attrs_of i st of None \<Rightarrow> False | Some a \<Rightarrow> ''visible'' \<in> set (classes a))"

text \<open>
  The delay of the timer that the first observer starts for an element with the
  attributes \<open>a\<close>.
\<close>

definition reveal_timeout :: "platform \<Rightarrow> attrs \<Rightarrow> nat" where
  "reveal_timeout pf a =
     timeout_of (js_times pf
       (js_or (case data_delay a of None \<Rightarrow> Undefined | Some s \<Rightarrow> Str s) (Numv (Num 0))) 100)"

fun is_reveal :: "callback \<Rightarrow> bool" where
  "is_reveal (AddVisible t) = True"
| "is_reveal cb = False"

text \<open>
  A run of the reveal: notifications of the first observer and the passing of time.
  \<open>first_hit\<close> is the time of the first notification that reports \<open>i\<close> as intersecting,
  for a run that starts at time \<open>t\<close>.
\<close>

datatype step = Notify "(nat \<times> bool) list" | Wait nat

fun do_step :: "platform \<Rightarrow> state \<Rightarrow> step \<Rightarrow> state" where
  "do_step pf st (Notify entries) = notify pf entries st"
| "do_step pf st (Wait dt) = advance dt st"

definition play :: "platform \<Rightarrow> step list \<Rightarrow> state \<Rightarrow> state" where
  "play pf steps st = foldl (do_step pf) st steps"

fun first_hit :: "nat \<Rightarrow> nat \<Rightarrow> step list \<Rightarrow> nat option" where
  "first_hit i t [] = None"
| "first_hit i t (Wait dt # steps) = first_hit i (t + dt) steps"
| "first_hit i t (Notify entries # steps) =
     (if (i, True) \<in> set entries then Some t else first_hit i t steps)"

text \<open>What \<^verbatim>\<open>classList.add('visible')\<close> makes of the attributes.\<close>

definition addvis :: "attrs \<Rightarrow> attrs" where
  "addvis a = (if ''visible'' \<in> set (classes a) then a else a\<lparr>classes := classes a @ [''visible'']\<rparr>)"



section \<open>A platform for the examples\<close>

text \<open>
  It converts a string of decimal digits to its value and any other string to
  \<^verbatim>\<open>NaN\<close>, and resolves a selector that is \<^verbatim>\<open>#\<close> and an id, raising on any other.
\<close>

definition is_digit :: "char \<Rightarrow> bool" where
  "is_digit c = (48 \<le> (of_char c :: nat) \<and> (of_char c :: nat) \<le> 57)"

definition decimal :: "string \<Rightarrow> jsnum" where
  "decimal s =
     (if s \<noteq> [] \<and> list_all is_digit s
      then Num (foldl (\<lambda>acc c. 10 * acc + (int (of_char c) - 48)) 0 s)
      else NaN)"

definition by_id :: "string \<Rightarrow> node list \<Rightarrow> error + node option" where
  "by_id sel roots =
     (case sel of
        [] \<Rightarrow> Inl SyntaxError
      | c # i \<Rightarrow> if c = CHR ''#'' \<and> i \<noteq> [] then Inr (List.find (has_id i) (all_nodes roots))
                 else Inl SyntaxError)"

definition sample_platform :: platform where
  "sample_platform = \<lparr>toNumber = decimal, querySelector = by_id\<rparr>"


text \<open>
  A page with a call-to-action button (id \<^verbatim>\<open>heroCta\<close>) and a video button, and a click
  at the point (5, 7).
\<close>

definition button_page :: state where
  "button_page =
     page [Node ((attr (elem 1 ''button'' [''btn-primary''] []))\<lparr>ident := ''heroCta''\<rparr>) [],
           elem 2 ''button'' [''btn-secondary''] []] 3"

definition click_at :: "nat \<Rightarrow> event" where
  "click_at i = \<lparr>target_of = Elem i, clientX = 5, clientY = 7, key = []\<rparr>"

text \<open>A page on which the video overlay was opened twice, and the Escape key.\<close>

definition two_overlays :: state where
  "two_overlays = page [video_overlay 0, video_overlay 7] 13"

definition escape_key :: event where
  "escape_key = \<lparr>target_of = Document, clientX = 0, clientY = 0, key = ''Escape''\<rparr>"

text \<open>
  A page with three cards: the first with \<^verbatim>\<open>data-delay="2"\<close>, the second with
  \<^verbatim>\<open>data-delay="soon"\<close>, the third without the attribute; the observers are set up.
\<close>

definition card_node :: "nat \<Rightarrow> string option \<Rightarrow> node" where
  "card_node i d = Node ((attr (elem i ''div'' [''workflow-card''] []))\<lparr>data_delay := d\<rparr>) []"

definition card_page :: state where
  "card_page = initScrollAnimations (page [card_node 1 (Some ''2''), card_node 2 (Some ''soon''), card_node 3 None] 4)"


section \<open>The tree\<close>

lemma all_nodes_Nil [simp]: "all_nodes [] = []"
  by (simp add: all_nodes_def)

lemma all_nodes_Cons [simp]: "all_nodes (n # ns) = nodes_of n @ all_nodes ns"
  by (simp add: all_nodes_def)

lemma all_nodes_append [simp]: "all_nodes (xs @ ys) = all_nodes xs @ all_nodes ys"
  by (simp add: all_nodes_def)

lemma nodes_of_eq: "nodes_of n = n # all_nodes (kids n)"
  by (cases n) (simp add: all_nodes_def)

lemma ids_of_simps [simp]:
  "ids_of [] = []"
  "ids_of (n # ns) = nid (attr n) # ids_of (kids n) @ ids_of ns"
  "ids_of (xs @ ys) = ids_of xs @ ids_of ys"
  by (simp_all add: ids_of_def nodes_of_eq)

lemma modify_absent:
  "i \<notin> set (ids_of [n]) \<Longrightarrow> modify i f n = n"
proof (induction n)
  case (Node a ks)
  have "map (modify i f) ks = ks"
  proof (rule map_idI)
    fix k assume k: "k \<in> set ks"
    have "set (ids_of [k]) \<subseteq> set (ids_of ks)"
      using k by (auto simp: ids_of_def all_nodes_def)
    with Node.prems have "i \<notin> set (ids_of [k])" by auto
    with Node.IH k show "modify i f k = k" by simp
  qed
  with Node.prems show ?case by simp
qed

lemma ids_of_member: "k \<in> set ks \<Longrightarrow> set (ids_of [k]) \<subseteq> set (ids_of ks)"
  by (auto simp: ids_of_def all_nodes_def)

lemma map_modify_absent:
  "i \<notin> set (ids_of ns) \<Longrightarrow> map (modify i f) ns = ns"
  by (rule map_idI) (meson ids_of_member modify_absent subsetD)

lemma prune_absent:
  "i \<notin> set (ids_of [n]) \<Longrightarrow> prune i n = n"
proof (induction n)
  case (Node a ks)
  have *: "\<And>k. k \<in> set ks \<Longrightarrow> i \<notin> set (ids_of [k])"
    using Node.prems ids_of_member by fastforce
  then have "map (prune i) ks = ks"
    using Node.IH by (intro map_idI) simp
  moreover have "filter (\<lambda>k. nid (attr k) \<noteq> i) ks = ks"
    using * by (intro filter_True) auto
  ultimately show ?case by simp
qed

lemma remove_from_absent:
  "i \<notin> set (ids_of ns) \<Longrightarrow> remove_from i ns = ns"
proof -
  assume a: "i \<notin> set (ids_of ns)"
  have *: "\<And>k. k \<in> set ks \<Longrightarrow> k \<in> set ns \<Longrightarrow> i \<notin> set (ids_of [k])" for ks
    using a ids_of_member by fastforce
  have "map (prune i) ns = ns"
    using * prune_absent by (intro map_idI) blast
  moreover have "filter (\<lambda>k. nid (attr k) \<noteq> i) ns = ns"
    using * by (intro filter_True) (auto)
  ultimately show ?thesis by (simp add: remove_from_def)
qed

lemma remove_from_append [simp]:
  "remove_from i (xs @ ys) = remove_from i xs @ remove_from i ys"
  by (simp add: remove_from_def)

lemma remove_from_Cons:
  "remove_from i (n # ns) = remove_from i [n] @ remove_from i ns"
  by (simp add: remove_from_def)

lemma remove_from_hit:
  "nid (attr n) = i \<Longrightarrow> remove_from i [n] = []"
  by (simp add: remove_from_def) (cases n, simp)

text \<open>A change that a projection of the attributes does not see.\<close>

lemma modify_quiet:
  assumes "\<And>a ks. map g (filter P (map attr (nodes_of (f (Node a ks))))) =
                  map g (filter P (map attr (nodes_of (Node a ks))))"
  shows "map g (filter P (map attr (nodes_of (modify i f n)))) =
         map g (filter P (map attr (nodes_of n)))"
proof (induction n)
  case (Node a ks)
  have kids: "map g (filter P (map attr (concat (map nodes_of (map (modify i f) ks))))) =
              map g (filter P (map attr (concat (map nodes_of ks))))"
    using Node.IH by (induction ks) simp_all
  have plain: "map g (filter P (map attr (nodes_of (Node a (map (modify i f) ks))))) =
               map g (filter P (map attr (nodes_of (Node a ks))))"
    using kids by simp
  show ?case
  proof (cases "nid a = i")
    case True
    then have "modify i f (Node a ks) = f (Node a (map (modify i f) ks))" by simp
    then show ?thesis using assms [of a "map (modify i f) ks"] plain by simp
  next
    case False
    then show ?thesis using plain by simp
  qed
qed

lemma map_modify_quiet:
  assumes "\<And>a ks. map g (filter P (map attr (nodes_of (f (Node a ks))))) =
                  map g (filter P (map attr (nodes_of (Node a ks))))"
  shows "map g (filter P (map attr (all_nodes (map (modify i f) ns)))) =
         map g (filter P (map attr (all_nodes ns)))"
  using modify_quiet [OF assms] by (induction ns) simp_all

text \<open>A change of the attributes alone, seen in the list of all attributes.\<close>

lemma modify_attrs:
  assumes "\<And>a ks. f (Node a ks) = Node (u a) ks" "\<And>a. nid (u a) = nid a"
  shows "map attr (nodes_of (modify i f n)) =
         map (\<lambda>a. if nid a = i then u a else a) (map attr (nodes_of n))"
proof (induction n)
  case (Node a ks)
  have "map attr (concat (map nodes_of (map (modify i f) ks))) =
        map (\<lambda>a. if nid a = i then u a else a) (map attr (concat (map nodes_of ks)))"
    using Node.IH by (induction ks) simp_all
  then show ?case by (simp add: assms(1))
qed

lemma map_modify_attrs:
  assumes "\<And>a ks. f (Node a ks) = Node (u a) ks" "\<And>a. nid (u a) = nid a"
  shows "map attr (all_nodes (map (modify i f) ns)) =
         map (\<lambda>a. if nid a = i then u a else a) (map attr (all_nodes ns))"
  using modify_attrs [OF assms] by (induction ns) simp_all

lemma find_map_update:
  assumes "\<And>a. nid (u a) = nid a"
  shows "List.find (\<lambda>a. nid a = j) (map (\<lambda>a. if nid a = i then u a else a) as) =
         map_option (\<lambda>a. if nid a = i then u a else a) (List.find (\<lambda>a. nid a = j) as)"
  by (induction as) (simp_all add: assms)

lemma attrs_of_alt:
  "attrs_of j st = List.find (\<lambda>a. nid a = j) (map attr (doc_nodes st))"
proof -
  have "map_option attr (List.find (is_node j) xs) = List.find (\<lambda>a. nid a = j) (map attr xs)" for xs
    by (induction xs) (simp_all add: is_node_def)
  then show ?thesis by (simp add: attrs_of_def find_node_def)
qed

lemma attrs_of_modify_doc:
  assumes "\<And>a ks. f (Node a ks) = Node (u a) ks" "\<And>a. nid (u a) = nid a"
  shows "attrs_of j (modify_doc i f st) = map_option (\<lambda>a. if j = i then u a else a) (attrs_of j st)"
proof -
  have "map attr (doc_nodes (modify_doc i f st)) =
        map (\<lambda>a. if nid a = i then u a else a) (map attr (doc_nodes st))"
    by (simp add: doc_nodes_def modify_doc_def map_modify_attrs [OF assms])
  then have "attrs_of j (modify_doc i f st) =
        map_option (\<lambda>a. if nid a = i then u a else a) (attrs_of j st)"
    unfolding attrs_of_alt by (simp only: find_map_update [OF assms(2)])
  moreover have "\<And>a. attrs_of j st = Some a \<Longrightarrow> nid a = j"
    by (auto simp: attrs_of_alt dest: find_Some_iff [THEN iffD1])
  ultimately show ?thesis by (cases "attrs_of j st") auto
qed

lemma find_filter_hd:
  "List.find P xs = (case filter P xs of [] \<Rightarrow> None | x # _ \<Rightarrow> Some x)"
  by (induction xs) simp_all

lemma view_modify_doc:
  assumes "\<And>a ks. map g (filter P (map attr (nodes_of (f (Node a ks))))) =
                  map g (filter P (map attr (nodes_of (Node a ks))))"
  shows "view P g (modify_doc i f st) = view P g st"
  using map_modify_quiet [of g P f i, OF assms]
  by (simp add: view_def doc_nodes_def modify_doc_def)

lemma view_same_doc:
  "head_kids s = head_kids t \<Longrightarrow> body_kids s = body_kids t \<Longrightarrow> view P g s = view P g t"
  by (simp add: view_def doc_nodes_def)

lemma overlay_ids_view:
  "overlay_ids st = view (\<lambda>a. ''modal-overlay'' \<in> set (classes a)) nid st"
  by (simp add: overlay_ids_def overlays_def view_def has_class_def [abs_def] filter_map comp_def)

lemma style_ids_view: "style_ids st = view (\<lambda>a. tag a = ''style'') ident st"
  by (simp add: style_ids_def view_def filter_map comp_def)

lemma view_set_style: "view P g (modify_doc i (set_style p v) st) = view P g st"
  if "\<And>a s. P (a\<lparr>inline := s\<rparr>) = P a" "\<And>a s. g (a\<lparr>inline := s\<rparr>) = g a"
  by (rule view_modify_doc) (simp add: set_style_def that)

lemma view_append_child: "view P g (modify_doc i (append_child c) st) = view P g st"
  if "filter P (map attr (nodes_of c)) = []"
  by (rule view_modify_doc) (simp add: append_child_def that)

lemma view_setTimeout: "view P g (setTimeout c m st) = view P g st"
  by (rule view_same_doc) (simp_all add: setTimeout_def)

lemma ripple_node_attr:
  "nid (attr (ripple_node e b st)) = next_id st" "tag (attr (ripple_node e b st)) = ''span''"
  "classes (attr (ripple_node e b st)) = []" "kids (ripple_node e b st) = []"
  by (simp_all add: ripple_node_def Let_def elem_def)

lemma createRipple_view:
  assumes "\<And>a s. P (a\<lparr>inline := s\<rparr>) = P a" "\<And>a s. g (a\<lparr>inline := s\<rparr>) = g a"
    "\<not> P (attr (ripple_node e b st))"
  shows "view P g (createRipple e b st) =
         view P g (add_ripple_styles (st\<lparr>next_id := Suc (next_id st)\<rparr>))"
proof -
  have "filter P (map attr (nodes_of (ripple_node e b st))) = []"
    using assms(3) ripple_node_attr(4) [of e b st]
    by (cases "ripple_node e b st") simp
  then show ?thesis
    by (simp add: createRipple_def Let_def view_setTimeout view_append_child
        view_set_style [OF assms(1,2)])
qed

lemma view_add_ripple_styles:
  assumes "\<And>k. \<not> P ((attr (elem k ''style'' [] []))\<lparr>ident := ''ripple-styles''\<rparr>)"
  shows "view P g (add_ripple_styles st) = view P g st"
  using assms [of "next_id st"]
  by (simp add: add_ripple_styles_def view_def doc_nodes_def split: option.splits)

lemma overlay_ids_createRipple: "overlay_ids (createRipple e b st) = overlay_ids st"
proof -
  let ?P = "\<lambda>a. ''modal-overlay'' \<in> set (classes a)"
  have "view ?P nid (createRipple e b st) =
        view ?P nid (add_ripple_styles (st\<lparr>next_id := Suc (next_id st)\<rparr>))"
    by (rule createRipple_view) (simp_all add: ripple_node_attr)
  also have "\<dots> = view ?P nid (st\<lparr>next_id := Suc (next_id st)\<rparr>)"
    by (rule view_add_ripple_styles) (simp add: elem_def)
  also have "\<dots> = view ?P nid st"
    by (rule view_same_doc) simp_all
  finally show ?thesis by (simp add: overlay_ids_view)
qed

lemma createRipple_fields:
  "timers (createRipple e b st) = timers st @ [(now st + 600, RemoveRipple (next_id st))]"
  "now (createRipple e b st) = now st"
  "uncaught (createRipple e b st) = uncaught st"
  by (simp_all add: createRipple_def Let_def setTimeout_def modify_doc_def add_ripple_styles_def
      ripple_node_attr split: option.splits)

section \<open>Opening and closing an overlay\<close>

lemma overlays_addModalStyles: "overlays (addModalStyles st) = overlays st"
  by (simp add: addModalStyles_def overlays_def doc_nodes_def elem_def has_class_def
      split: option.splits)

lemma body_addModalStyles: "body_kids (addModalStyles st) = body_kids st"
  by (simp add: addModalStyles_def split: option.splits)

lemma head_nodes_addModalStyles:
  "filter (has_class c) (all_nodes (head_kids (addModalStyles st))) =
   filter (has_class c) (all_nodes (head_kids st))"
  by (simp add: addModalStyles_def elem_def has_class_def split: option.splits)

lemma overlays_open_overlay:
  "overlays (snd (open_overlay ov fresh st)) =
   overlays st @ filter (has_class ''modal-overlay'') (nodes_of ov)"
  by (simp add: open_overlay_def overlays_def doc_nodes_def Let_def addEventListener_def
      head_nodes_addModalStyles body_addModalStyles split: option.splits)

lemma demo_overlay_only:
  "filter (has_class ''modal-overlay'') (nodes_of (demo_overlay k)) = [demo_overlay k]"
  by (simp add: demo_overlay_def elem_def has_class_def)

lemma video_overlay_only:
  "filter (has_class ''modal-overlay'') (nodes_of (video_overlay k)) = [video_overlay k]"
  by (simp add: video_overlay_def elem_def has_class_def)

lemma no_demoForm:
  "List.find (has_id ''demoForm'') (all_nodes (kids (demo_overlay k))) = None"
  by (simp add: demo_overlay_def elem_def has_id_def)

lemma snd_showDemoModal:
  "snd (showDemoModal st) = snd (open_overlay (demo_overlay (next_id st)) (next_id st + 9) st)"
  by (simp add: showDemoModal_def Let_def no_demoForm split: prod.splits option.splits)

lemma overlays_showDemoModal:
  "overlays (snd (showDemoModal st)) = overlays st @ [demo_overlay (next_id st)]"
  by (simp add: snd_showDemoModal overlays_open_overlay demo_overlay_only)

lemma overlays_showVideoModal:
  "overlays (snd (showVideoModal st)) = overlays st @ [video_overlay (next_id st)]"
  by (simp add: showVideoModal_def overlays_open_overlay video_overlay_only)

lemma advance_single:
  "timers st = [(d, cb)] \<Longrightarrow> d \<le> now st + dt \<Longrightarrow>
   advance dt st = (run_timer (d, cb) (st\<lparr>timers := []\<rparr>))\<lparr>now := now st + dt\<rparr>"
  by (simp add: advance_def Let_def)

lemma advance_early:
  "timers st = [(d, cb)] \<Longrightarrow> \<not> d \<le> now st + dt \<Longrightarrow>
   advance dt st = st\<lparr>now := now st + dt\<rparr>"
  by (simp add: advance_def Let_def)

lemma close_then_wait:
  assumes "timers st = []" "body_kids st = xs @ [ov] @ ys" "nid (attr ov) = i"
    "i \<notin> set (ids_of (head_kids st @ xs @ ys))"
  shows "body_kids (advance 300 (closeModal i st)) = xs @ ys"
    and "head_kids (advance 300 (closeModal i st)) = head_kids st"
    and "body_overflow (advance 300 (closeModal i st)) = []"
    and "now (advance 300 (closeModal i st)) = now st + 300"
proof -
  let ?c = "closeModal i st"
  have t: "timers ?c = [(now ?c + 300, FinishClose i)]" and n: "now ?c = now st"
    using assms(1) by (simp_all add: closeModal_def setTimeout_def modify_doc_def)
  have adv: "advance 300 ?c = (run_timer (now ?c + 300, FinishClose i) (?c\<lparr>timers := []\<rparr>))\<lparr>now := now ?c + 300\<rparr>"
    using advance_single [OF t] by simp
  have hx: "i \<notin> set (ids_of (head_kids st))" "i \<notin> set (ids_of xs)" "i \<notin> set (ids_of ys)"
    using assms(4) by simp_all
  have b: "body_kids ?c = xs @ [modify i (remove_class ''active'') ov] @ ys"
    using assms(2) hx by (simp add: closeModal_def setTimeout_def modify_doc_def map_modify_absent)
  have h: "head_kids ?c = head_kids st"
    using hx by (simp add: closeModal_def setTimeout_def modify_doc_def map_modify_absent)
  have idm: "nid (attr (modify i (remove_class ''active'') ov)) = i"
    using assms(3) by (cases ov) (simp add: remove_class_def)
  show "body_kids (advance 300 ?c) = xs @ ys"
    using hx by (simp add: adv run_timer_def report_def remove_doc_def b remove_from_absent
        remove_from_hit [OF idm] remove_from_Cons [of i _ ys])
  show "head_kids (advance 300 ?c) = head_kids st"
    using hx by (simp add: adv run_timer_def report_def remove_doc_def h remove_from_absent)
  show "body_overflow (advance 300 ?c) = []"
    by (simp add: adv run_timer_def report_def remove_doc_def)
  show "now (advance 300 ?c) = now st + 300"
    by (simp add: adv n)
qed

lemma close_too_early:
  assumes "timers st = []" "dt < 300"
  shows "body_kids (advance dt (closeModal i st)) = map (modify i (remove_class ''active'')) (body_kids st)"
proof -
  let ?c = "closeModal i st"
  have t: "timers ?c = [(now ?c + 300, FinishClose i)]"
    using assms(1) by (simp_all add: closeModal_def setTimeout_def modify_doc_def)
  have "advance dt ?c = ?c\<lparr>now := now ?c + dt\<rparr>"
    using advance_early [OF t] assms(2) by simp
  then show ?thesis by (simp add: closeModal_def setTimeout_def modify_doc_def)
qed


lemma overlays_after_close:
  assumes "timers st = []" "body_kids st = xs @ [ov] @ ys" "nid (attr ov) = i"
    "i \<notin> set (ids_of (head_kids st @ xs @ ys))"
  shows "overlays (advance 300 (closeModal i st)) =
         filter (has_class ''modal-overlay'') (all_nodes (head_kids st @ xs @ ys))"
  using close_then_wait(1,2) [OF assms] by (simp add: overlays_def doc_nodes_def)

lemma open_overlay_fields:
  "timers (snd (open_overlay ov fresh st)) = timers st"
  "body_kids (snd (open_overlay ov fresh st)) = body_kids st @ [ov]"
  "set (ids_of (head_kids (snd (open_overlay ov fresh st)))) \<subseteq> insert fresh (set (ids_of (head_kids st)))"
  "filter (has_class c) (all_nodes (head_kids (snd (open_overlay ov fresh st)))) =
   filter (has_class c) (all_nodes (head_kids st))"
  by (auto simp: open_overlay_def Let_def addEventListener_def addModalStyles_def
      elem_def has_class_def split: option.splits)

lemma open_close_cycle:
  assumes "timers st = []" "overlays st = []" "next_id st \<notin> set (ids_of (head_kids st @ body_kids st))"
    "nid (attr ov) = next_id st" "next_id st < fresh"
  shows "overlays (advance 300 (closeModal (next_id st) (snd (open_overlay ov fresh st)))) = []"
    and "body_overflow (advance 300 (closeModal (next_id st) (snd (open_overlay ov fresh st)))) = []"
proof -
  let ?s = "snd (open_overlay ov fresh st)"
  have b: "body_kids ?s = body_kids st @ [ov] @ []" by (simp add: open_overlay_fields)
  have t: "timers ?s = []" by (simp add: open_overlay_fields assms(1))
  have f: "next_id st \<notin> set (ids_of (head_kids ?s @ body_kids st @ []))"
    using assms(3,5) open_overlay_fields(3) [of ov fresh st] by auto
  have "overlays (advance 300 (closeModal (next_id st) ?s)) =
        filter (has_class ''modal-overlay'') (all_nodes (head_kids ?s @ body_kids st @ []))"
    by (rule overlays_after_close [OF t b assms(4) f])
  also have "\<dots> = overlays st"
    by (simp add: overlays_def doc_nodes_def open_overlay_fields(4))
  finally show "overlays (advance 300 (closeModal (next_id st) ?s)) = []"
    using assms(2) by simp
  show "body_overflow (advance 300 (closeModal (next_id st) ?s)) = []"
    by (rule close_then_wait(3) [OF t b assms(4) f])
qed

text \<open>
  C2, as the code has it. An open operation adds exactly one overlay to the document,
  after the ones that are there: neither open function looks for an open overlay
  first. \<^verbatim>\<open>closeModal\<close> on an overlay \<open>ov\<close> among the body's children, with no other
  timer pending, removes that overlay and no other node when 300 time units have passed,
  not earlier, and unlocks the scrolling of the body. Opened from a document with no
  overlay and closed, the document has no overlay again.
\<close>

theorem open_adds_one_close_removes_it:
  "overlays (snd (showDemoModal st)) = overlays st @ [demo_overlay (next_id st)] \<and>
   overlays (snd (showVideoModal st)) = overlays st @ [video_overlay (next_id st)] \<and>
   (timers st = [] \<and> body_kids st = xs @ [ov] @ ys \<and> nid (attr ov) = i \<and>
    i \<notin> set (ids_of (head_kids st @ xs @ ys)) \<longrightarrow>
      body_kids (advance 300 (closeModal i st)) = xs @ ys \<and>
      head_kids (advance 300 (closeModal i st)) = head_kids st \<and>
      body_overflow (advance 300 (closeModal i st)) = [] \<and>
      (\<forall>dt < 300. i \<in> set (ids_of (body_kids (advance dt (closeModal i st)))))) \<and>
   (timers st = [] \<and> overlays st = [] \<and> next_id st \<notin> set (ids_of (head_kids st @ body_kids st)) \<longrightarrow>
      overlays (advance 300 (closeModal (next_id st) (snd (showDemoModal st)))) = [] \<and>
      body_overflow (advance 300 (closeModal (next_id st) (snd (showDemoModal st)))) = [] \<and>
      overlays (advance 300 (closeModal (next_id st) (snd (showVideoModal st)))) = [] \<and>
      body_overflow (advance 300 (closeModal (next_id st) (snd (showVideoModal st)))) = [])"
proof (intro conjI impI allI)
  show "overlays (snd (showDemoModal st)) = overlays st @ [demo_overlay (next_id st)]"
    by (rule overlays_showDemoModal)
  show "overlays (snd (showVideoModal st)) = overlays st @ [video_overlay (next_id st)]"
    by (rule overlays_showVideoModal)
next
  assume h: "timers st = [] \<and> body_kids st = xs @ [ov] @ ys \<and> nid (attr ov) = i \<and>
    i \<notin> set (ids_of (head_kids st @ xs @ ys))"
  then have a: "timers st = []" "body_kids st = xs @ [ov] @ ys" "nid (attr ov) = i"
    "i \<notin> set (ids_of (head_kids st @ xs @ ys))" by simp_all
  show "body_kids (advance 300 (closeModal i st)) = xs @ ys"
    by (rule close_then_wait(1) [OF a])
  show "head_kids (advance 300 (closeModal i st)) = head_kids st"
    by (rule close_then_wait(2) [OF a])
  show "body_overflow (advance 300 (closeModal i st)) = []"
    by (rule close_then_wait(3) [OF a])
  fix dt :: nat assume "dt < 300"
  then have "body_kids (advance dt (closeModal i st)) =
      map (modify i (remove_class ''active'')) (body_kids st)"
    using a(1) by (rule close_too_early [rotated])
  moreover have "nid (attr (modify i (remove_class ''active'') ov)) = i"
    using a(3) by (cases ov) (simp add: remove_class_def)
  ultimately show "i \<in> set (ids_of (body_kids (advance dt (closeModal i st))))"
    by (simp add: a(2))
next
  assume h: "timers st = [] \<and> overlays st = [] \<and>
    next_id st \<notin> set (ids_of (head_kids st @ body_kids st))"
  then have a: "timers st = []" "overlays st = []"
    "next_id st \<notin> set (ids_of (head_kids st @ body_kids st))" by simp_all
  have d: "nid (attr (demo_overlay (next_id st))) = next_id st"
    and v: "nid (attr (video_overlay (next_id st))) = next_id st"
    by (simp_all add: demo_overlay_def video_overlay_def elem_def)
  show "overlays (advance 300 (closeModal (next_id st) (snd (showDemoModal st)))) = []"
    unfolding snd_showDemoModal by (rule open_close_cycle(1) [OF a d]) simp
  show "body_overflow (advance 300 (closeModal (next_id st) (snd (showDemoModal st)))) = []"
    unfolding snd_showDemoModal by (rule open_close_cycle(2) [OF a d]) simp
  show "overlays (advance 300 (closeModal (next_id st) (snd (showVideoModal st)))) = []"
    unfolding showVideoModal_def by (rule open_close_cycle(1) [OF a v]) simp
  show "body_overflow (advance 300 (closeModal (next_id st) (snd (showVideoModal st)))) = []"
    unfolding showVideoModal_def by (rule open_close_cycle(2) [OF a v]) simp
qed

text \<open>
  C2 as stated fails: a second open gives two overlays, and closing one of the two
  leaves one after the delay.
\<close>

theorem second_open_counterexample:
  "length (overlays (snd (showVideoModal (snd (showDemoModal (page [] 0)))))) = 2 \<and>
   length (overlays (advance 300 (closeModal 0 (snd (showVideoModal (snd (showDemoModal (page [] 0)))))))) = 1"
  by code_simp

theorem open_adds_one_close_removes_it_witness:
  "body_kids (advance 300 (closeModal 0 (snd (showVideoModal (page [] 0))))) = [] \<and>
   body_overflow (advance 300 (closeModal 0 (snd (showVideoModal (page [] 0))))) = [] \<and>
   overlays (advance 300 (closeModal 0 (snd (showDemoModal (page [] 0))))) = []"
  using open_adds_one_close_removes_it
    [of "snd (showVideoModal (page [] 0))" "[]" "video_overlay 0" "[]" 0]
    open_adds_one_close_removes_it [of "page [] 0" "[]" "video_overlay 0" "[]" 0]
  by (simp add: showVideoModal_def open_overlay_def page_def video_overlay_def elem_def
      addModalStyles_def getElementById_def doc_nodes_def has_class_def has_id_def
      addEventListener_def ids_of_def overlays_def Let_def)

section \<open>The submit action\<close>

lemma listeners_showDemoModal:
  "listeners (snd (showDemoModal st)) =
   listeners st @ [(Elem (next_id st + 2), ''click'', CloseClick (next_id st)),
                   (Elem (next_id st), ''click'', BackdropClick (next_id st))]"
  by (simp add: snd_showDemoModal open_overlay_def demo_overlay_def elem_def has_class_def
      Let_def addEventListener_def addModalStyles_def split: option.splits)

text \<open>
  Called on the open modal, \<^verbatim>\<open>showSuccessMessage\<close> raises nothing, keeps the overlay
  in the document, replaces the children of the content by a new close control and the
  success panel, and registers \<^verbatim>\<open>closeModal\<close> for a click on that control.
\<close>

lemma showSuccessMessage_on_open_modal:
  "fst (showSuccessMessage 0 (snd (showDemoModal (page [] 0)))) = None \<and>
   overlay_ids (snd (showSuccessMessage 0 (snd (showDemoModal (page [] 0))))) = [0] \<and>
   map (\<lambda>n. classes (attr n))
     (all_nodes (kids (hd (overlays (snd (showSuccessMessage 0 (snd (showDemoModal (page [] 0))))))))) =
     [[''modal-content''], [''modal-close''], [''success-content''], [''success-icon''],
      [''modal-title''], [''modal-text''], [''modal-submit'']] \<and>
   last (listeners (snd (showSuccessMessage 0 (snd (showDemoModal (page [] 0)))))) =
     (Elem 15, ''click'', CloseClick 0)"
  by code_simp

text \<open>
  A click on the button of the success panel clicks the close control and then calls
  \<^verbatim>\<open>closeModal\<close> once more: two timers, and no overlay 300 time units later.
\<close>

lemma click_on_success_button:
  "timers (snd (dispatch sample_platform ''click'' (click_at 14)
     (snd (showSuccessMessage 0 (snd (showDemoModal (page [] 0))))))) =
     [(300, FinishClose 0), (300, FinishClose 0)] \<and>
   overlay_ids (advance 300 (snd (dispatch sample_platform ''click'' (click_at 14)
     (snd (showSuccessMessage 0 (snd (showDemoModal (page [] 0)))))))) = []"
  by code_simp

text \<open>
  C3. The claim is about the submit action of the modal of \<^verbatim>\<open>showDemoModal\<close>. That
  function registers two click listeners and no listener for \<^verbatim>\<open>submit\<close>: the lookup
  of \<^verbatim>\<open>#demoForm\<close> finds nothing and the call on its result raises (C1). A
  \<^verbatim>\<open>submit\<close> event on the content of the modal hence runs no handler: the default is
  not prevented and the state, with the content of the modal, stays as it is.
\<close>

theorem submit_handler_never_registered:
  "handlers_at ''submit'' (snd (showDemoModal st)) t = handlers_at ''submit'' st t \<and>
   dispatch pf ''submit'' e (snd (showDemoModal (page [] 0))) =
     (False, snd (showDemoModal (page [] 0)))"
proof
  show "handlers_at ''submit'' (snd (showDemoModal st)) t = handlers_at ''submit'' st t"
    by (simp add: handlers_at_def listeners_showDemoModal)
  have "listeners (snd (showDemoModal (page [] 0))) =
      [(Elem 2, ''click'', CloseClick 0), (Elem 0, ''click'', BackdropClick 0)]"
    by (simp add: listeners_showDemoModal) (simp add: page_def)
  then have "handlers_at ''submit'' (snd (showDemoModal (page [] 0))) t = []" for t
    by (simp add: handlers_at_def)
  then have v: "visit pf ''submit'' e (snd (showDemoModal (page [] 0))) acc t = acc" for acc t
    by (simp add: visit_def run_onclick_def)
  have "foldl (visit pf ''submit'' e (snd (showDemoModal (page [] 0)))) acc ps = acc" for acc ps
    by (induction ps) (simp_all add: v)
  then show "dispatch pf ''submit'' e (snd (showDemoModal (page [] 0))) =
     (False, snd (showDemoModal (page [] 0)))"
    by (simp add: dispatch_def)
qed

section \<open>Smooth scrolling\<close>





section \<open>The buttons\<close>

lemma overlay_ids_showDemoModal:
  "overlay_ids (snd (showDemoModal st)) = overlay_ids st @ [next_id st]"
  by (simp add: overlay_ids_def overlays_showDemoModal demo_overlay_def elem_def)

lemma overlay_ids_showVideoModal:
  "overlay_ids (snd (showVideoModal st)) = overlay_ids st @ [next_id st]"
  by (simp add: overlay_ids_def overlays_showVideoModal video_overlay_def elem_def)

lemma overlay_ids_same_doc:
  "head_kids s = head_kids t \<Longrightarrow> body_kids s = body_kids t \<Longrightarrow> overlay_ids s = overlay_ids t"
  by (simp add: overlay_ids_def overlays_def doc_nodes_def)

lemma advance_none_due:
  "\<forall>p \<in> set (timers st). \<not> fst p \<le> now st + dt \<Longrightarrow> advance dt st = st\<lparr>now := now st + dt\<rparr>"
proof -
  assume a: "\<forall>p \<in> set (timers st). \<not> fst p \<le> now st + dt"
  then have "[p \<leftarrow> timers st. fst p \<le> now st + dt] = []"
    by (simp add: filter_empty_conv)
  moreover have "[p \<leftarrow> timers st. \<not> fst p \<le> now st + dt] = timers st"
    using a by (simp add: filter_id_conv)
  ultimately show ?thesis by (simp add: advance_def Let_def)
qed

lemma advance_second_of_two:
  "timers st = [p, q] \<Longrightarrow> \<not> fst p \<le> now st + dt \<Longrightarrow> fst q \<le> now st + dt \<Longrightarrow>
   advance dt st = (run_timer q (st\<lparr>timers := [p]\<rparr>))\<lparr>now := now st + dt\<rparr>"
  by (simp add: advance_def Let_def)


lemma report_fields:
  "head_kids (report r) = head_kids (snd r)" "body_kids (report r) = body_kids (snd r)"
  "timers (report r) = timers (snd r)" "now (report r) = now (snd r)"
  "observed (report r) = observed (snd r)"
  "uncaught (report r) = uncaught (snd r) @ (case fst r of None \<Rightarrow> [] | Some x \<Rightarrow> [x])"
  by (simp_all add: report_def split: option.splits)

lemma fst_showDemoModal: "fst (showDemoModal s) = Some TypeError"
  by (simp add: showDemoModal_def open_overlay_def demo_overlay_def elem_def all_nodes_def
      has_class_def has_id_def Let_def split: prod.splits)

lemma uncaught_showDemoModal: "uncaught (snd (showDemoModal s)) = uncaught s"
  by (simp add: snd_showDemoModal open_overlay_def Let_def addEventListener_def addModalStyles_def
      split: option.splits)

lemma cta_timers:
  "timers (snd (snd (onCtaClick e b st))) =
   timers st @ [(now st + 600, RemoveRipple (next_id st)), (now st + 300, ShowDemoModal)]"
  "now (snd (snd (onCtaClick e b st))) = now st"
  "overlay_ids (snd (snd (onCtaClick e b st))) = overlay_ids st"
  "uncaught (snd (snd (onCtaClick e b st))) = uncaught st"
proof -
  have "overlay_ids (setTimeout ShowDemoModal 300 (createRipple e b st)) = overlay_ids (createRipple e b st)"
    by (rule overlay_ids_same_doc) (simp_all add: setTimeout_def)
  then show "overlay_ids (snd (snd (onCtaClick e b st))) = overlay_ids st"
    by (simp add: onCtaClick_def overlay_ids_createRipple)
qed (simp_all add: onCtaClick_def setTimeout_def createRipple_fields)

lemma cta_then_wait:
  assumes "timers st = []"
  shows "dt < 300 \<Longrightarrow> overlay_ids (advance dt (snd (snd (onCtaClick e b st)))) = overlay_ids st"
    and "overlay_ids (advance 300 (snd (snd (onCtaClick e b st)))) =
         overlay_ids st @ [next_id (createRipple e b st)]"
    and "uncaught (advance 300 (snd (snd (onCtaClick e b st)))) = uncaught st @ [TypeError]"
proof -
  let ?s = "snd (snd (onCtaClick e b st))"
  have t: "timers ?s = [(now st + 600, RemoveRipple (next_id st)), (now st + 300, ShowDemoModal)]"
    using assms by (simp add: cta_timers)
  have n: "now ?s = now st" by (rule cta_timers)
  show "overlay_ids (advance dt ?s) = overlay_ids st" if "dt < 300"
  proof -
    have "advance dt ?s = ?s\<lparr>now := now ?s + dt\<rparr>"
      by (rule advance_none_due) (use that in \<open>simp add: t n\<close>)
    then have "overlay_ids (advance dt ?s) = overlay_ids ?s"
      using overlay_ids_same_doc [of "?s\<lparr>now := now ?s + dt\<rparr>" ?s] by simp
    then show ?thesis by (simp add: cta_timers)
  qed
  define s1 where "s1 = ?s\<lparr>timers := [(now st + 600, RemoveRipple (next_id st))]\<rparr>"
  have adv: "advance 300 ?s = (run_timer (now st + 300, ShowDemoModal) s1)\<lparr>now := now ?s + 300\<rparr>"
    unfolding s1_def by (rule advance_second_of_two [OF t]) (simp_all add: n)
  define s2 where "s2 = s1\<lparr>now := max (now s1) (now st + 300)\<rparr>"
  have rt: "run_timer (now st + 300, ShowDemoModal) s1 = report (showDemoModal s2)"
    by (simp add: run_timer_def s2_def)
  have o2: "overlay_ids s2 = overlay_ids st"
    using overlay_ids_same_doc [of s2 ?s] by (simp add: s2_def s1_def cta_timers)
  have nx: "next_id s2 = next_id (createRipple e b st)"
    by (simp add: s2_def s1_def onCtaClick_def setTimeout_def)
  have u2: "uncaught s2 = uncaught st"
    by (simp add: s2_def s1_def cta_timers)
  have "overlay_ids (advance 300 ?s) = overlay_ids (snd (showDemoModal s2))"
    unfolding adv rt by (rule overlay_ids_same_doc) (simp_all add: report_fields)
  then show "overlay_ids (advance 300 ?s) = overlay_ids st @ [next_id (createRipple e b st)]"
    by (simp add: overlay_ids_showDemoModal o2 nx)
  show "uncaught (advance 300 ?s) = uncaught st @ [TypeError]"
    unfolding adv rt by (simp add: report_fields fst_showDemoModal uncaught_showDemoModal u2)
qed










section \<open>Errors of the entry points\<close>

text \<open>
  C1. The claim is that no entry point raises. \<^verbatim>\<open>showDemoModal\<close> raises a
  \<^verbatim>\<open>TypeError\<close> in every state: its template has no element with the id
  \<^verbatim>\<open>demoForm\<close>, and the result of that lookup is used without a check. So 300 time
  units after a click on a call-to-action button the browser has an uncaught exception
  to report. The scroll handler raises when the page has no element with the id
  \<^verbatim>\<open>header\<close>.
\<close>

theorem showDemoModal_raises:
  "fst (showDemoModal st) = Some TypeError \<and>
   uncaught (advance 300 (snd (snd (onCtaClick (click_at 1) 1 button_page)))) = [TypeError] \<and>
   fst (snd (onScroll None st)) = Some TypeError"
proof (intro conjI)
  show "fst (showDemoModal st) = Some TypeError" by (rule fst_showDemoModal)
  have "timers button_page = []" "uncaught button_page = []"
    by (simp_all add: button_page_def page_def)
  then show "uncaught (advance 300 (snd (snd (onCtaClick (click_at 1) 1 button_page)))) = [TypeError]"
    using cta_then_wait(3) [of button_page "click_at 1" 1] by simp
  show "fst (snd (onScroll None st)) = Some TypeError" by (simp add: onScroll_def)
qed

section \<open>The injected styles\<close>

lemma getElementById_view:
  "(getElementById x st = None) = (view (\<lambda>a. ident a = x) ident st = [])"
  by (auto simp: getElementById_def view_def find_None_iff filter_empty_conv has_id_def)

lemma addModalStyles_idem: "addModalStyles (addModalStyles st) = addModalStyles st"
proof (cases "getElementById ''modal-styles'' st")
  case None
  let ?s = "addModalStyles st"
  have "view (\<lambda>a. ident a = ''modal-styles'') ident ?s \<noteq> []"
    using None by (simp add: addModalStyles_def view_def doc_nodes_def elem_def)
  then obtain n where "getElementById ''modal-styles'' ?s = Some n"
    using getElementById_view [of "''modal-styles''" ?s] by (cases "getElementById ''modal-styles'' ?s") auto
  then show ?thesis by (simp add: addModalStyles_def [of ?s])
next
  case (Some n)
  then show ?thesis by (simp add: addModalStyles_def)
qed

lemma addModalStyles_funpow: "(addModalStyles ^^ Suc n) st = addModalStyles st"
  by (induction n) (simp_all add: addModalStyles_idem)

lemma absent_id_count:
  assumes "getElementById x st = None"
  shows "count_list (map ident (filter P (map attr (all_nodes (head_kids st))))) x = 0"
    and "count_list (map ident (filter P (map attr (all_nodes (body_kids st))))) x = 0"
proof -
  have "\<forall>n \<in> set (doc_nodes st). ident (attr n) \<noteq> x"
    using assms by (auto simp: getElementById_def find_None_iff has_id_def)
  then have "x \<notin> set (map ident (filter P (map attr (all_nodes (head_kids st)))))"
    "x \<notin> set (map ident (filter P (map attr (all_nodes (body_kids st)))))"
    by (auto simp: doc_nodes_def)
  then show "count_list (map ident (filter P (map attr (all_nodes (head_kids st))))) x = 0"
    and "count_list (map ident (filter P (map attr (all_nodes (body_kids st))))) x = 0"
    by (simp_all only: count_list_0_iff not_False_eq_True)
qed

lemma addModalStyles_first:
  assumes "getElementById ''modal-styles'' st = None"
  shows "count_list (style_ids (addModalStyles st)) ''modal-styles'' = 1"
  using assms absent_id_count [OF assms, of "\<lambda>a. tag a = ''style''"]
  by (simp add: style_ids_view view_def addModalStyles_def doc_nodes_def elem_def)

lemma add_ripple_styles_present:
  "view (\<lambda>a. ident a = ''ripple-styles'') ident (add_ripple_styles st) \<noteq> []"
proof (cases "getElementById ''ripple-styles'' st")
  case None
  then show ?thesis by (simp add: add_ripple_styles_def view_def doc_nodes_def elem_def)
next
  case (Some n)
  then show ?thesis using getElementById_view [of "''ripple-styles''" st]
    by (simp add: add_ripple_styles_def)
qed

lemma createRipple_marker:
  "\<exists>n. getElementById ''ripple-styles'' ((createRipple e b st)\<lparr>next_id := k\<rparr>) = Some n"
proof -
  let ?P = "\<lambda>a. ident a = ''ripple-styles''"
  have "view ?P ident (createRipple e b st) =
        view ?P ident (add_ripple_styles (st\<lparr>next_id := Suc (next_id st)\<rparr>))"
    by (rule createRipple_view) (simp_all add: ripple_node_def Let_def elem_def)
  then have "view ?P ident ((createRipple e b st)\<lparr>next_id := k\<rparr>) \<noteq> []"
    using add_ripple_styles_present [of "st\<lparr>next_id := Suc (next_id st)\<rparr>"]
      view_same_doc [of "(createRipple e b st)\<lparr>next_id := k\<rparr>" "createRipple e b st" ?P ident]
    by simp
  then show ?thesis
    using getElementById_view [of "''ripple-styles''" "(createRipple e b st)\<lparr>next_id := k\<rparr>"]
    by (cases "getElementById ''ripple-styles'' ((createRipple e b st)\<lparr>next_id := k\<rparr>)") auto
qed

lemma style_ids_createRipple:
  "style_ids (createRipple e b st) = style_ids (add_ripple_styles (st\<lparr>next_id := Suc (next_id st)\<rparr>))"
  unfolding style_ids_view
  by (rule createRipple_view) (simp_all add: ripple_node_attr)

lemma createRipple_twice:
  "style_ids (createRipple e2 b2 (createRipple e1 b1 st)) = style_ids (createRipple e1 b1 st)"
proof -
  let ?s = "createRipple e1 b1 st"
  obtain n where "getElementById ''ripple-styles'' (?s\<lparr>next_id := Suc (next_id ?s)\<rparr>) = Some n"
    using createRipple_marker by blast
  then have "add_ripple_styles (?s\<lparr>next_id := Suc (next_id ?s)\<rparr>) = ?s\<lparr>next_id := Suc (next_id ?s)\<rparr>"
    by (simp add: add_ripple_styles_def)
  then have "style_ids (createRipple e2 b2 ?s) = style_ids (?s\<lparr>next_id := Suc (next_id ?s)\<rparr>)"
    by (simp add: style_ids_createRipple)
  also have "\<dots> = style_ids ?s"
    unfolding style_ids_view by (rule view_same_doc) simp_all
  finally show ?thesis .
qed

lemma createRipple_first:
  assumes "getElementById ''ripple-styles'' st = None"
  shows "count_list (style_ids (createRipple e b st)) ''ripple-styles'' = 1"
proof -
  let ?s = "st\<lparr>next_id := Suc (next_id st)\<rparr>"
  have g: "getElementById ''ripple-styles'' ?s = None"
    using assms by (simp add: getElementById_def doc_nodes_def)
  have "count_list (style_ids (add_ripple_styles ?s)) ''ripple-styles'' = 1"
    using g absent_id_count [OF g, of "\<lambda>a. tag a = ''style''"]
    by (simp add: style_ids_view view_def add_ripple_styles_def doc_nodes_def elem_def)
  then show ?thesis by (simp only: style_ids_createRipple)
qed

text \<open>
  C7. A second call of \<^verbatim>\<open>addModalStyles\<close> changes nothing at all, and so does any
  number of further calls; when no element had the marker id, the first call leaves
  exactly one style element with it. A call of \<^verbatim>\<open>createRipple\<close> after another, for
  any click and button, leaves the style elements of the document as they are; when
  no element had the marker id, the first call leaves exactly one style element with it.
\<close>

theorem style_injection_once:
  "addModalStyles (addModalStyles st) = addModalStyles st \<and>
   (addModalStyles ^^ Suc n) st = addModalStyles st \<and>
   (getElementById ''modal-styles'' st = None \<longrightarrow>
      count_list (style_ids (addModalStyles st)) ''modal-styles'' = 1) \<and>
   style_ids (createRipple e2 b2 (createRipple e1 b1 st)) = style_ids (createRipple e1 b1 st) \<and>
   (getElementById ''ripple-styles'' st = None \<longrightarrow>
      count_list (style_ids (createRipple e1 b1 st)) ''ripple-styles'' = 1)"
  using addModalStyles_idem addModalStyles_funpow addModalStyles_first createRipple_twice
    createRipple_first by blast

theorem style_injection_once_witness:
  "count_list (style_ids (addModalStyles button_page)) ''modal-styles'' = 1 \<and>
   count_list (style_ids (createRipple (click_at 1) 1 button_page)) ''ripple-styles'' = 1 \<and>
   style_ids (createRipple (click_at 2) 2 (createRipple (click_at 1) 1 button_page)) =
     [''ripple-styles'']"
proof -
  have a: "getElementById ''modal-styles'' button_page = None"
    "getElementById ''ripple-styles'' button_page = None"
    by (simp_all add: getElementById_def doc_nodes_def has_id_def button_page_def page_def elem_def)
  have b: "style_ids (createRipple (click_at 1) 1 button_page) = [''ripple-styles'']"
    by (simp add: style_ids_def doc_nodes_def createRipple_def Let_def setTimeout_def
        modify_doc_def add_ripple_styles_def getElementById_def has_id_def button_page_def
        page_def elem_def ripple_node_def set_style_def append_child_def)
  show ?thesis
    using style_injection_once [of button_page 0 "click_at 2" 2 "click_at 1" 1] a b by simp
qed

section \<open>The Escape key\<close>

lemma query_class_overlays:
  "query_class ''modal-overlay'' st = (case overlays st of [] \<Rightarrow> None | ov # _ \<Rightarrow> Some ov)"
  by (simp add: query_class_def overlays_def find_filter_hd)

lemma closeModal_fields:
  "timers (closeModal i st) = timers st @ [(now st + 300, FinishClose i)]"
  "head_kids (closeModal i st) = map (modify i (remove_class ''active'')) (head_kids st)"
  "body_kids (closeModal i st) = map (modify i (remove_class ''active'')) (body_kids st)"
  "next_id (closeModal i st) = next_id st" "body_overflow (closeModal i st) = body_overflow st"
  "uncaught (closeModal i st) = uncaught st" "listeners (closeModal i st) = listeners st"
  by (simp_all add: closeModal_def setTimeout_def modify_doc_def)

lemma keydown_initSmoothScroll:
  "[l \<leftarrow> listeners (initSmoothScroll st). fst (snd l) = ''keydown''] =
   [l \<leftarrow> listeners st. fst (snd l) = ''keydown'']"
proof -
  have "[l \<leftarrow> listeners (foldl (\<lambda>s link. addEventListener (Elem (nid (attr link))) ''click''
            (AnchorClick (nid (attr link))) s) s links). fst (snd l) = ''keydown''] =
        [l \<leftarrow> listeners s. fst (snd l) = ''keydown'']" for s links
    by (induction links arbitrary: s) (simp_all add: addEventListener_def)
  then show ?thesis by (simp add: initSmoothScroll_def)
qed

lemma listeners_hide_headers: "listeners (foldl hide_header st hs) = listeners st"
  by (induction hs arbitrary: st) (simp_all add: hide_header_def Let_def modify_doc_def)

lemma listeners_initScrollAnimations: "listeners (initScrollAnimations st) = listeners st"
  by (simp add: initScrollAnimations_def Let_def listeners_hide_headers)

lemma keydown_register_cta:
  "[l \<leftarrow> listeners (register_cta st b). fst (snd l) = ''keydown''] =
   [l \<leftarrow> listeners st. fst (snd l) = ''keydown'']"
  by (simp add: register_cta_def addEventListener_def split: option.splits)

lemma keydown_initButtonInteractions:
  "[l \<leftarrow> listeners (initButtonInteractions st). fst (snd l) = ''keydown''] =
   [l \<leftarrow> listeners st. fst (snd l) = ''keydown'']"
proof -
  let ?s1 = "foldl register_cta st [getElementById ''heroCta'' st, getElementById ''ctaButton'' st,
     query_class ''header-cta'' st]"
  have k: "[l \<leftarrow> listeners ?s1. fst (snd l) = ''keydown''] = [l \<leftarrow> listeners st. fst (snd l) = ''keydown'']"
    by (simp add: keydown_register_cta)
  have "initButtonInteractions st =
      (case query_class ''btn-secondary'' ?s1 of None \<Rightarrow> ?s1
       | Some v \<Rightarrow> addEventListener (Elem (nid (attr v))) ''click'' VideoClick ?s1)"
    by (simp only: initButtonInteractions_def Let_def)
  then show ?thesis
    using k by (cases "query_class ''btn-secondary'' ?s1") (simp_all add: addEventListener_def)
qed

lemma keydown_initHeaderScroll:
  "[l \<leftarrow> listeners (initHeaderScroll st). fst (snd l) = ''keydown''] =
   [l \<leftarrow> listeners st. fst (snd l) = ''keydown'']"
  by (simp add: initHeaderScroll_def addEventListener_def)

lemma keydown_boot:
  "[l \<leftarrow> listeners (boot st). fst (snd l) = ''keydown''] =
   [l \<leftarrow> listeners st. fst (snd l) = ''keydown''] @ [(Document, ''keydown'', KeyDown)]"
  by (simp add: boot_def keydown_initHeaderScroll keydown_initButtonInteractions
      listeners_initScrollAnimations keydown_initSmoothScroll addEventListener_def)

lemma handlers_at_filter:
  "handlers_at ty st t = map (\<lambda>l. snd (snd l)) [l \<leftarrow> [l \<leftarrow> listeners st. fst (snd l) = ty]. fst l = t]"
  by (simp add: handlers_at_def conj_commute)

lemma keydown_handlers_boot:
  "listeners st = [] \<Longrightarrow>
   handlers_at ''keydown'' (boot st) t = (if t = Document then [KeyDown] else [])"
  by (simp add: handlers_at_filter keydown_boot)

lemma event_path_document:
  assumes "Document \<in> set (event_path t st)"
  shows "\<exists>p. event_path t st = map Elem p @ [Document, Window]"
proof (cases t)
  case Window
  then show ?thesis using assms by (simp add: event_path_def)
next
  case Document
  then have "event_path t st = map Elem [] @ [Document, Window]" by (simp add: event_path_def)
  then show ?thesis by blast
next
  case (Elem i)
  then show ?thesis using assms by (auto simp: event_path_def split: list.splits)
qed

lemma keypress_runs_onKeydown:
  assumes "listeners st = []" "Document \<in> set (event_path (target_of e) (boot st))"
  shows "dispatch pf ''keydown'' e (boot st) = (False, snd (snd (onKeydown e (boot st))))"
proof -
  obtain p where p: "event_path (target_of e) (boot st) = map Elem p @ [Document, Window]"
    using event_path_document [OF assms(2)] by blast
  note h = keydown_handlers_boot [OF assms(1)]
  have v: "visit pf ''keydown'' e (boot st) acc (Elem i) = acc" for acc i
    by (simp add: visit_def run_onclick_def h)
  have pre: "foldl (visit pf ''keydown'' e (boot st)) acc (map Elem p) = acc" for acc
    by (induction p) (simp_all add: v)
  have w: "visit pf ''keydown'' e (boot st) acc Window = acc" for acc
    by (simp add: visit_def run_onclick_def h)
  have f: "fst (onKeydown e s) = False" "fst (snd (onKeydown e s)) = None" for s
    by (simp_all add: onKeydown_def split: option.splits)
  have d: "visit pf ''keydown'' e (boot st) (False, boot st) Document =
      (False, snd (snd (onKeydown e (boot st))))"
    by (simp add: visit_def run_onclick_def h deliver_def report_def f)
  show ?thesis by (simp add: dispatch_def p pre d w)
qed

text \<open>
  C8. The script registers the handler for \<^verbatim>\<open>keydown\<close> on the document, and on a page
  that had no listener a key press whose path reaches the document runs that handler
  and nothing else. With no overlay in the document the handler leaves the state as it
  is, for Escape as for any other key, and raises nothing. With overlays, Escape calls
  \<^verbatim>\<open>closeModal\<close> on the first in document order and on no other: one timer is
  started, for that overlay, and when that overlay is a child of the body with no
  overlay before it and no other timer is pending, the body has lost exactly that
  child 300 time units later.
\<close>

theorem escape_closes_first_overlay:
  "(Document, ''keydown'', KeyDown) \<in> set (listeners (boot st0)) \<and>
   (listeners st0 = [] \<and> Document \<in> set (event_path (target_of e) (boot st0)) \<longrightarrow>
      dispatch pf ''keydown'' e (boot st0) = (False, snd (snd (onKeydown e (boot st0))))) \<and>
   (overlays st = [] \<or> key e \<noteq> ''Escape'' \<longrightarrow> onKeydown e st = (False, None, st)) \<and>
   (key e = ''Escape'' \<and> overlays st = ov # rest \<longrightarrow>
      onKeydown e st = (False, None, closeModal (nid (attr ov)) st) \<and>
      timers (snd (snd (onKeydown e st))) = timers st @ [(now st + 300, FinishClose (nid (attr ov)))]) \<and>
   (key e = ''Escape'' \<and> timers st = [] \<and> body_kids st = xs @ [ov] @ ys \<and>
    has_class ''modal-overlay'' ov \<and>
    filter (has_class ''modal-overlay'') (all_nodes (head_kids st @ xs)) = [] \<and>
    nid (attr ov) \<notin> set (ids_of (head_kids st @ xs @ ys)) \<longrightarrow>
      body_kids (advance 300 (snd (snd (onKeydown e st)))) = xs @ ys)"
proof (intro conjI impI)
  have "(Document, ''keydown'', KeyDown) \<in> set [l \<leftarrow> listeners (boot st0). fst (snd l) = ''keydown'']"
    by (simp only: keydown_boot) simp
  then show "(Document, ''keydown'', KeyDown) \<in> set (listeners (boot st0))" by simp
next
  assume "listeners st0 = [] \<and> Document \<in> set (event_path (target_of e) (boot st0))"
  then show "dispatch pf ''keydown'' e (boot st0) = (False, snd (snd (onKeydown e (boot st0))))"
    using keypress_runs_onKeydown [of st0 e pf] by simp
next
  assume "overlays st = [] \<or> key e \<noteq> ''Escape''"
  then show "onKeydown e st = (False, None, st)"
    by (auto simp: onKeydown_def query_class_overlays)
next
  assume a: "key e = ''Escape'' \<and> overlays st = ov # rest"
  then show k: "onKeydown e st = (False, None, closeModal (nid (attr ov)) st)"
    by (simp add: onKeydown_def query_class_overlays)
  show "timers (snd (snd (onKeydown e st))) = timers st @ [(now st + 300, FinishClose (nid (attr ov)))]"
    by (simp add: k closeModal_fields)
next
  assume a: "key e = ''Escape'' \<and> timers st = [] \<and> body_kids st = xs @ [ov] @ ys \<and>
    has_class ''modal-overlay'' ov \<and>
    filter (has_class ''modal-overlay'') (all_nodes (head_kids st @ xs)) = [] \<and>
    nid (attr ov) \<notin> set (ids_of (head_kids st @ xs @ ys))"
  then have "\<exists>rest. overlays st = ov # rest"
    by (simp add: overlays_def doc_nodes_def nodes_of_eq [of ov])
  then have "onKeydown e st = (False, None, closeModal (nid (attr ov)) st)"
    using a by (auto simp: onKeydown_def query_class_overlays)
  then show "body_kids (advance 300 (snd (snd (onKeydown e st)))) = xs @ ys"
    using a close_then_wait(1) [of st xs ov ys "nid (attr ov)"] by simp
qed

theorem escape_closes_first_overlay_witness:
  "onKeydown escape_key button_page = (False, None, button_page) \<and>
   timers (snd (snd (onKeydown escape_key two_overlays))) = [(300, FinishClose 0)] \<and>
   body_kids (advance 300 (snd (snd (onKeydown escape_key two_overlays)))) = [video_overlay 7] \<and>
   timers (snd (dispatch sample_platform ''keydown'' escape_key (boot two_overlays))) =
     [(300, FinishClose 0)] \<and>
   dispatch sample_platform ''keydown'' escape_key (boot button_page) = (False, boot button_page)"
proof -
  have o: "overlays button_page = []"
    by (simp add: overlays_def doc_nodes_def has_class_def button_page_def page_def elem_def)
  have v: "has_class ''modal-overlay'' (video_overlay 0)" "nid (attr (video_overlay 0)) = 0"
    "0 \<notin> set (ids_of [video_overlay 7])"
    by (simp_all add: video_overlay_def elem_def has_class_def ids_of_def)
  have s: "overlays two_overlays = video_overlay 0 # [video_overlay 7]"
    by (simp add: overlays_def doc_nodes_def two_overlays_def page_def video_overlay_only)
  have t: "timers two_overlays = []" "now two_overlays = 0" "head_kids two_overlays = []"
    "body_kids two_overlays = [] @ [video_overlay 0] @ [video_overlay 7]"
    "key escape_key = ''Escape''"
    by (simp_all add: two_overlays_def page_def escape_key_def)
  have l: "listeners two_overlays = []" "listeners button_page = []"
    by (simp_all add: two_overlays_def button_page_def page_def)
  have p: "Document \<in> set (event_path (target_of escape_key) s)" for s
    by (simp add: event_path_def escape_key_def)
  have b: "overlays (boot two_overlays) = video_overlay 0 # [video_overlay 7]"
    "timers (boot two_overlays) = []" "now (boot two_overlays) = 0"
    "overlays (boot button_page) = []"
    by code_simp+
  have first: "onKeydown escape_key button_page = (False, None, button_page) \<and>
   timers (snd (snd (onKeydown escape_key two_overlays))) = [(300, FinishClose 0)] \<and>
   body_kids (advance 300 (snd (snd (onKeydown escape_key two_overlays)))) = [video_overlay 7]"
    using escape_closes_first_overlay [of button_page escape_key sample_platform button_page]
      escape_closes_first_overlay [of button_page escape_key sample_platform two_overlays
        "video_overlay 0" "[video_overlay 7]" "[]" "[video_overlay 7]"] o v s t
    by auto
  have booted: "timers (snd (dispatch sample_platform ''keydown'' escape_key (boot two_overlays))) =
     [(300, FinishClose 0)]"
    using escape_closes_first_overlay [of two_overlays escape_key sample_platform "boot two_overlays"
        "video_overlay 0" "[video_overlay 7]" "[]" "[]"] l p b v t(5)
    by auto
  have quiet: "dispatch sample_platform ''keydown'' escape_key (boot button_page) = (False, boot button_page)"
    using escape_closes_first_overlay [of button_page escape_key sample_platform "boot button_page"
        "video_overlay 0" "[]" "[]" "[]"] l p b
    by auto
  show ?thesis using first booted quiet by simp
qed

section \<open>What the ripple does to the button\<close>

lemma prune_append_child:
  "prune i (append_child c (Node a ks)) =
   Node a (filter (\<lambda>k. nid (attr k) \<noteq> i) (map (prune i) ks @ [prune i c]))"
  by (simp add: append_child_def)

lemma prune_appended:
  "i \<notin> set (ids_of [n]) \<Longrightarrow> nid (attr c) = i \<Longrightarrow> prune i (modify b (append_child c) n) = n"
proof (induction n)
  case (Node a ks)
  have *: "\<And>k. k \<in> set ks \<Longrightarrow> i \<notin> set (ids_of [k])"
    using Node.prems(1) ids_of_member by fastforce
  have m: "map (prune i) (map (modify b (append_child c)) ks) = ks"
    using Node.IH * Node.prems(2) by (simp add: map_idI)
  have f: "filter (\<lambda>k. nid (attr k) \<noteq> i) ks = ks"
    using * by (intro filter_True) auto
  have c: "nid (attr (prune i c)) = i"
    using Node.prems(2) by (cases c) simp
  have plain: "prune i (Node a (map (modify b (append_child c)) ks)) = Node a ks"
    by (simp only: prune.simps m f)
  have extra: "prune i (append_child c (Node a (map (modify b (append_child c)) ks))) = Node a ks"
    by (simp only: prune_append_child m) (simp add: f c)
  show ?case by (simp only: modify.simps plain extra split: if_splits) simp
qed

lemma remove_appended:
  assumes "i \<notin> set (ids_of ns)" "nid (attr c) = i"
  shows "remove_from i (map (modify b (append_child c)) ns) = ns"
proof -
  have *: "\<And>k. k \<in> set ns \<Longrightarrow> i \<notin> set (ids_of [k])"
    using assms(1) ids_of_member by fastforce
  have "map (prune i) (map (modify b (append_child c)) ns) = ns"
    using * prune_appended [OF _ assms(2)] by (simp add: map_idI)
  moreover have "filter (\<lambda>k. nid (attr k) \<noteq> i) ns = ns"
    using * by (intro filter_True) auto
  ultimately show ?thesis by (simp add: remove_from_def)
qed

lemma ids_of_set_style: "ids_of (map (modify b (set_style p v)) ns) = ids_of ns"
proof -
  have "map attr (all_nodes (map (modify b (set_style p v)) ns)) =
        map (\<lambda>a. if nid a = b then a\<lparr>inline := set_prop p v (inline a)\<rparr> else a) (map attr (all_nodes ns))"
    by (rule map_modify_attrs) (simp_all add: set_style_def)
  then have "map nid (map attr (all_nodes (map (modify b (set_style p v)) ns))) = map nid (map attr (all_nodes ns))"
    by (simp add: comp_def if_distrib cong: if_cong)
  then show ?thesis by (simp add: ids_of_def comp_def)
qed

lemma attrs_of_set_style:
  "attrs_of j (modify_doc i (set_style p v) st) =
   map_option (\<lambda>a. if j = i then a\<lparr>inline := set_prop p v (inline a)\<rparr> else a) (attrs_of j st)"
  by (rule attrs_of_modify_doc) (simp_all add: set_style_def)

lemma map_of_replace:
  "map_of (map (\<lambda>(q, w). if q = p then (q, v) else (q, w)) sty) x =
   (if x = p \<and> map_of sty p \<noteq> None then Some v else map_of sty x)"
  by (induction sty) auto

lemma map_of_set_prop: "map_of (set_prop p v sty) = (map_of sty)(p \<mapsto> v)"
proof (cases "p \<in> fst ` set sty")
  case True
  then have "map_of sty p \<noteq> None" by (simp add: map_of_eq_None_iff)
  then show ?thesis using True by (auto simp: set_prop_def fun_eq_iff map_of_replace)
next
  case False
  then have "map_of sty p = None" by (simp add: map_of_eq_None_iff)
  then show ?thesis using False by (auto simp: set_prop_def fun_eq_iff map_add_def split: option.splits)
qed


lemma attrs_of_view:
  "attrs_of j st = (case view (\<lambda>a. nid a = j) (\<lambda>a. a) st of [] \<Rightarrow> None | a # _ \<Rightarrow> Some a)"
  by (simp add: attrs_of_alt view_def find_filter_hd)

lemma attrs_of_append_child:
  "nid (attr c) \<noteq> j \<Longrightarrow> kids c = [] \<Longrightarrow>
   attrs_of j (modify_doc i (append_child c) st) = attrs_of j st"
  unfolding attrs_of_view
  by (subst view_append_child) (cases c, simp_all)

lemma attrs_of_same_doc:
  "head_kids s = head_kids t \<Longrightarrow> body_kids s = body_kids t \<Longrightarrow> attrs_of j s = attrs_of j t"
  by (simp add: attrs_of_alt doc_nodes_def)

lemma attrs_of_bound:
  assumes "list_all (\<lambda>i. i < k) (ids_of (head_kids st @ body_kids st))" "attrs_of j st = Some a"
  shows "j < k"
proof -
  have "List.find (is_node j) (doc_nodes st) \<noteq> None"
    using assms(2) by (auto simp: attrs_of_def find_node_def)
  then obtain n where "n \<in> set (doc_nodes st)" "nid (attr n) = j"
    by (auto simp: find_None_iff is_node_def)
  then have "j \<in> set (ids_of (head_kids st @ body_kids st))"
    by (auto simp: ids_of_def doc_nodes_def)
  then show ?thesis using assms(1) by (auto simp: list_all_iff)
qed

lemma find_append:
  "List.find P (xs @ ys) = (case List.find P xs of None \<Rightarrow> List.find P ys | Some x \<Rightarrow> Some x)"
  by (induction xs) simp_all

lemma attrs_of_add_ripple_styles:
  assumes "j < next_id st"
  shows "attrs_of j (add_ripple_styles st) = attrs_of j st"
  using assms
  by (simp add: add_ripple_styles_def attrs_of_alt doc_nodes_def elem_def find_append
      split: option.splits)

lemma createRipple_doc:
  "body_kids (createRipple e b st) =
     map (modify b (append_child (ripple_node e b st)))
       (map (modify b (set_style ''overflow'' (Txt ''hidden'')))
         (map (modify b (set_style ''position'' (Txt ''relative''))) (body_kids st)))"
  "head_kids (createRipple e b st) =
     map (modify b (append_child (ripple_node e b st)))
       (map (modify b (set_style ''overflow'' (Txt ''hidden'')))
         (map (modify b (set_style ''position'' (Txt ''relative'')))
           (head_kids (add_ripple_styles (st\<lparr>next_id := Suc (next_id st)\<rparr>)))))"
  by (simp_all add: createRipple_def Let_def setTimeout_def modify_doc_def add_ripple_styles_def
      split: option.splits)

lemma body_add_ripple_styles: "body_kids (add_ripple_styles st) = body_kids st"
  by (simp add: add_ripple_styles_def split: option.splits)

lemma ids_add_ripple_styles:
  "set (ids_of (head_kids (add_ripple_styles st))) \<subseteq> insert (next_id st) (set (ids_of (head_kids st)))"
  by (auto simp: add_ripple_styles_def elem_def split: option.splits)

lemma ripple_gone:
  assumes "timers st = []" "list_all (\<lambda>i. i < next_id st) (ids_of (head_kids st @ body_kids st))"
  shows "body_kids (advance 600 (createRipple e b st)) =
           map (modify b (set_style ''overflow'' (Txt ''hidden'')))
             (map (modify b (set_style ''position'' (Txt ''relative''))) (body_kids st))"
    and "head_kids (advance 600 (createRipple e b st)) =
           map (modify b (set_style ''overflow'' (Txt ''hidden'')))
             (map (modify b (set_style ''position'' (Txt ''relative'')))
               (head_kids (add_ripple_styles (st\<lparr>next_id := Suc (next_id st)\<rparr>))))"
proof -
  let ?c = "createRipple e b st"
  let ?r = "next_id st"
  have t: "timers ?c = [(now ?c + 600, RemoveRipple ?r)]"
    using assms(1) by (simp add: createRipple_fields)
  have adv: "advance 600 ?c = (run_timer (now ?c + 600, RemoveRipple ?r) (?c\<lparr>timers := []\<rparr>))\<lparr>now := now ?c + 600\<rparr>"
    by (rule advance_single [OF t]) simp
  have fb: "?r \<notin> set (ids_of (body_kids st))" and fh0: "?r \<notin> set (ids_of (head_kids st))"
    using assms(2) by (auto simp: list_all_iff)
  have fh: "?r \<notin> set (ids_of (head_kids (add_ripple_styles (st\<lparr>next_id := Suc ?r\<rparr>))))"
    using fh0 ids_add_ripple_styles [of "st\<lparr>next_id := Suc ?r\<rparr>"] by auto
  have n: "nid (attr (ripple_node e b st)) = ?r" by (rule ripple_node_attr)
  show "body_kids (advance 600 ?c) =
           map (modify b (set_style ''overflow'' (Txt ''hidden'')))
             (map (modify b (set_style ''position'' (Txt ''relative''))) (body_kids st))"
  proof -
    have "remove_from ?r (body_kids ?c) =
           map (modify b (set_style ''overflow'' (Txt ''hidden'')))
             (map (modify b (set_style ''position'' (Txt ''relative''))) (body_kids st))"
      unfolding createRipple_doc
      by (rule remove_appended [OF _ n]) (simp only: ids_of_set_style fb not_False_eq_True)
    then show ?thesis
      unfolding adv by (simp add: run_timer_def report_fields remove_doc_def)
  qed
  show "head_kids (advance 600 ?c) =
           map (modify b (set_style ''overflow'' (Txt ''hidden'')))
             (map (modify b (set_style ''position'' (Txt ''relative'')))
               (head_kids (add_ripple_styles (st\<lparr>next_id := Suc ?r\<rparr>))))"
  proof -
    have "remove_from ?r (head_kids ?c) =
           map (modify b (set_style ''overflow'' (Txt ''hidden'')))
             (map (modify b (set_style ''position'' (Txt ''relative'')))
               (head_kids (add_ripple_styles (st\<lparr>next_id := Suc ?r\<rparr>))))"
      unfolding createRipple_doc
      by (rule remove_appended [OF _ n]) (simp only: ids_of_set_style fh not_False_eq_True)
    then show ?thesis
      unfolding adv by (simp add: run_timer_def report_fields remove_doc_def)
  qed
qed


lemma restyled_attrs:
  assumes "list_all (\<lambda>i. i < next_id st) (ids_of (head_kids st @ body_kids st))" "attrs_of b st = Some a"
  shows "attrs_of b
           (modify_doc b (set_style ''overflow'' (Txt ''hidden''))
             (modify_doc b (set_style ''position'' (Txt ''relative''))
               (add_ripple_styles (st\<lparr>next_id := Suc (next_id st)\<rparr>)))) =
         Some (a\<lparr>inline := set_prop ''overflow'' (Txt ''hidden'')
                              (set_prop ''position'' (Txt ''relative'') (inline a))\<rparr>)"
proof -
  have "b < next_id st" by (rule attrs_of_bound [OF assms])
  then have "attrs_of b (add_ripple_styles (st\<lparr>next_id := Suc (next_id st)\<rparr>)) =
             attrs_of b (st\<lparr>next_id := Suc (next_id st)\<rparr>)"
    by (intro attrs_of_add_ripple_styles) simp
  also have "\<dots> = Some a"
    using assms(2) attrs_of_same_doc [of "st\<lparr>next_id := Suc (next_id st)\<rparr>" st b] by simp
  finally show ?thesis by (simp add: attrs_of_set_style)
qed

text \<open>
  C9. \<^verbatim>\<open>createRipple\<close> changes the button in the document: the button gets the inline
  styles \<^verbatim>\<open>position: relative\<close> and \<^verbatim>\<open>overflow: hidden\<close> and the ripple as its last
  child. For a button of the document, identities below the next fresh one and no other
  timer pending: right after the call the button's attributes are the old ones with the
  two styles set, and 600 time units later they still are, while the body is the old
  body with those two styles set on the button and nothing else changed, the ripple
  gone. Setting the two styles leaves every other inline property as it was.
\<close>

theorem ripple_restyles_button:
  "body_kids (createRipple e b st) =
     map (modify b (append_child (ripple_node e b st)))
       (map (modify b (set_style ''overflow'' (Txt ''hidden'')))
         (map (modify b (set_style ''position'' (Txt ''relative''))) (body_kids st))) \<and>
   (timers st = [] \<and> list_all (\<lambda>i. i < next_id st) (ids_of (head_kids st @ body_kids st)) \<and>
    attrs_of b st = Some a \<longrightarrow>
      attrs_of b (createRipple e b st) =
        Some (a\<lparr>inline := set_prop ''overflow'' (Txt ''hidden'')
                             (set_prop ''position'' (Txt ''relative'') (inline a))\<rparr>) \<and>
      attrs_of b (advance 600 (createRipple e b st)) =
        Some (a\<lparr>inline := set_prop ''overflow'' (Txt ''hidden'')
                             (set_prop ''position'' (Txt ''relative'') (inline a))\<rparr>) \<and>
      body_kids (advance 600 (createRipple e b st)) =
        map (modify b (set_style ''overflow'' (Txt ''hidden'')))
          (map (modify b (set_style ''position'' (Txt ''relative''))) (body_kids st))) \<and>
   map_of (set_prop ''overflow'' (Txt ''hidden'') (set_prop ''position'' (Txt ''relative'') sty)) =
     (map_of sty)(''position'' \<mapsto> Txt ''relative'', ''overflow'' \<mapsto> Txt ''hidden'')"
proof (intro conjI impI)
  show "body_kids (createRipple e b st) =
     map (modify b (append_child (ripple_node e b st)))
       (map (modify b (set_style ''overflow'' (Txt ''hidden'')))
         (map (modify b (set_style ''position'' (Txt ''relative''))) (body_kids st)))"
    by (rule createRipple_doc)
  show "map_of (set_prop ''overflow'' (Txt ''hidden'') (set_prop ''position'' (Txt ''relative'') sty)) =
     (map_of sty)(''position'' \<mapsto> Txt ''relative'', ''overflow'' \<mapsto> Txt ''hidden'')"
    by (simp add: map_of_set_prop)
next
  assume h: "timers st = [] \<and> list_all (\<lambda>i. i < next_id st) (ids_of (head_kids st @ body_kids st)) \<and>
    attrs_of b st = Some a"
  then have t: "timers st = []"
    and f: "list_all (\<lambda>i. i < next_id st) (ids_of (head_kids st @ body_kids st))"
    and a: "attrs_of b st = Some a" by simp_all
  let ?m = "modify_doc b (set_style ''overflow'' (Txt ''hidden''))
             (modify_doc b (set_style ''position'' (Txt ''relative''))
               (add_ripple_styles (st\<lparr>next_id := Suc (next_id st)\<rparr>)))"
  have lt: "b < next_id st" by (rule attrs_of_bound [OF f a])
  have "attrs_of b (createRipple e b st) = attrs_of b (modify_doc b (append_child (ripple_node e b st)) ?m)"
    by (rule attrs_of_same_doc) (simp_all add: createRipple_def Let_def setTimeout_def)
  also have "\<dots> = attrs_of b ?m"
    using lt by (intro attrs_of_append_child) (simp_all add: ripple_node_attr)
  finally show "attrs_of b (createRipple e b st) =
        Some (a\<lparr>inline := set_prop ''overflow'' (Txt ''hidden'')
                             (set_prop ''position'' (Txt ''relative'') (inline a))\<rparr>)"
    by (simp only: restyled_attrs [OF f a])
  have "attrs_of b (advance 600 (createRipple e b st)) = attrs_of b ?m"
    by (rule attrs_of_same_doc)
      (simp_all add: ripple_gone [OF t f] modify_doc_def body_add_ripple_styles)
  then show "attrs_of b (advance 600 (createRipple e b st)) =
        Some (a\<lparr>inline := set_prop ''overflow'' (Txt ''hidden'')
                             (set_prop ''position'' (Txt ''relative'') (inline a))\<rparr>)"
    by (simp only: restyled_attrs [OF f a])
  show "body_kids (advance 600 (createRipple e b st)) =
        map (modify b (set_style ''overflow'' (Txt ''hidden'')))
          (map (modify b (set_style ''position'' (Txt ''relative''))) (body_kids st))"
    by (rule ripple_gone(1) [OF t f])
qed

theorem ripple_restyles_button_witness:
  "map_option inline (attrs_of 1 (advance 600 (createRipple (click_at 1) 1 button_page))) =
     Some [(''position'', Txt ''relative''), (''overflow'', Txt ''hidden'')] \<and>
   body_kids (advance 600 (createRipple (click_at 1) 1 button_page)) =
     map (modify 1 (set_style ''overflow'' (Txt ''hidden'')))
       (map (modify 1 (set_style ''position'' (Txt ''relative''))) (body_kids button_page))"
proof -
  have t: "timers button_page = []"
    and f: "list_all (\<lambda>i. i < next_id button_page) (ids_of (head_kids button_page @ body_kids button_page))"
    and a: "attrs_of 1 button_page = Some ((attr (elem 1 ''button'' [''btn-primary''] []))\<lparr>ident := ''heroCta''\<rparr>)"
    by (simp_all add: button_page_def page_def ids_of_def elem_def attrs_of_def find_node_def
        doc_nodes_def is_node_def)
  show ?thesis
    using ripple_restyles_button [of "click_at 1" 1 button_page
        "(attr (elem 1 ''button'' [''btn-primary''] []))\<lparr>ident := ''heroCta''\<rparr>"] t f a
    by (simp add: elem_def set_prop_def)
qed

section \<open>The reveal\<close>

lemma dataset_delay_attrs:
  "dataset_delay t st =
     (case attrs_of t st of
        None \<Rightarrow> Undefined
      | Some a \<Rightarrow> (case data_delay a of None \<Rightarrow> Undefined | Some s \<Rightarrow> Str s))"
  by (simp add: dataset_delay_def attrs_of_def split: option.splits)

lemma revealEntry_hit:
  "attrs_of t st = Some a \<Longrightarrow>
   revealEntry pf (t, True) st =
     (setTimeout (AddVisible t) (reveal_timeout pf a) st)\<lparr>observed := removeAll t (observed st)\<rparr>"
  by (simp add: revealEntry_def Let_def dataset_delay_attrs reveal_timeout_def setTimeout_def)

lemma reveal_timeout_cases:
  "data_delay a = None \<Longrightarrow> reveal_timeout pf a = 0"
  "data_delay a = Some [] \<Longrightarrow> reveal_timeout pf a = 0"
  "data_delay a = Some s \<Longrightarrow> s \<noteq> [] \<Longrightarrow> toNumber pf s = NaN \<Longrightarrow> reveal_timeout pf a = 0"
  "data_delay a = Some s \<Longrightarrow> s \<noteq> [] \<Longrightarrow> toNumber pf s = Num (int d) \<Longrightarrow> d * 100 < 2 ^ 31 \<Longrightarrow>
   reveal_timeout pf a = d * 100"
proof -
  show "data_delay a = None \<Longrightarrow> reveal_timeout pf a = 0"
    by (simp add: reveal_timeout_def js_or_def js_times_def timeout_of_def)
  show "data_delay a = Some [] \<Longrightarrow> reveal_timeout pf a = 0"
    by (simp add: reveal_timeout_def js_or_def js_times_def timeout_of_def)
  show "data_delay a = Some s \<Longrightarrow> s \<noteq> [] \<Longrightarrow> toNumber pf s = NaN \<Longrightarrow> reveal_timeout pf a = 0"
    by (simp add: reveal_timeout_def js_or_def js_times_def timeout_of_def)
  assume a: "data_delay a = Some s" "s \<noteq> []" "toNumber pf s = Num (int d)" "d * 100 < 2 ^ 31"
  have "int (d * 100) < int (2 ^ 31)"
    using a(4) by (simp only: of_nat_less_iff)
  then have i: "int d * 100 < 2147483648" by simp
  have "(int d * 100 + 2147483648) mod 4294967296 = int d * 100 + 2147483648"
    using i by (intro mod_pos_pos_trivial) simp_all
  then show "reveal_timeout pf a = d * 100"
    using a by (simp add: reveal_timeout_def js_or_def js_times_def timeout_of_def Let_def nat_mult_distrib)
qed









lemma attrs_of_add_visible:
  "attrs_of j (modify_doc t (add_class ''visible'') st) =
   map_option (\<lambda>a. if j = t then addvis a else a) (attrs_of j st)"
  by (rule attrs_of_modify_doc) (simp_all add: add_class_def addvis_def)

lemma run_timer_reveal:
  "run_timer (d, AddVisible t) st = modify_doc t (add_class ''visible'') (st\<lparr>now := max (now st) d\<rparr>)"
  by (simp add: run_timer_def report_def)

lemma run_reveals:
  assumes "list_all (\<lambda>p. is_reveal (snd p)) ps"
  shows "timers (foldl (\<lambda>s p. run_timer p s) st ps) = timers st \<and>
         observed (foldl (\<lambda>s p. run_timer p s) st ps) = observed st \<and>
         uncaught (foldl (\<lambda>s p. run_timer p s) st ps) = uncaught st \<and>
         attrs_of j (foldl (\<lambda>s p. run_timer p s) st ps) =
           map_option (\<lambda>a. if AddVisible j \<in> snd ` set ps then addvis a else a) (attrs_of j st)"
  using assms
proof (induction ps arbitrary: st)
  case Nil
  show ?case by (simp add: option.map_ident)
next
  case (Cons p ps)
  obtain d t where p: "p = (d, AddVisible t)"
    using Cons.prems by (cases p; cases "snd p") auto
  let ?s = "run_timer (d, AddVisible t) st"
  have f: "timers ?s = timers st" "observed ?s = observed st" "uncaught ?s = uncaught st"
    by (simp_all add: run_timer_reveal modify_doc_def)
  have a: "attrs_of j ?s = map_option (\<lambda>a. if j = t then addvis a else a) (attrs_of j st)"
    unfolding run_timer_reveal attrs_of_add_visible
    by (rule arg_cong [where f = "map_option _"]) (rule attrs_of_same_doc, simp_all)
  have i: "addvis (addvis x) = addvis x" for x by (simp add: addvis_def)
  have "list_all (\<lambda>p. is_reveal (snd p)) ps" using Cons.prems by simp
  from Cons.IH [OF this, of ?s] show ?case
    unfolding p by (cases "attrs_of j st") (auto simp: f a i)
qed

lemma advance_reveals:
  assumes "list_all (\<lambda>p. is_reveal (snd p)) (timers st)"
  shows "timers (advance dt st) = [p \<leftarrow> timers st. \<not> fst p \<le> now st + dt]"
    and "observed (advance dt st) = observed st"
    and "now (advance dt st) = now st + dt"
    and "uncaught (advance dt st) = uncaught st"
    and "attrs_of j (advance dt st) =
           map_option (\<lambda>a. if \<exists>d \<le> now st + dt. (d, AddVisible j) \<in> set (timers st) then addvis a else a)
             (attrs_of j st)"
proof -
  let ?due = "sort_key fst [p \<leftarrow> timers st. fst p \<le> now st + dt]"
  let ?s0 = "st\<lparr>timers := [p \<leftarrow> timers st. \<not> fst p \<le> now st + dt]\<rparr>"
  have r: "list_all (\<lambda>p. is_reveal (snd p)) ?due"
    using assms by (auto simp: list_all_iff)
  have adv: "advance dt st = (foldl (\<lambda>s p. run_timer p s) ?s0 ?due)\<lparr>now := now st + dt\<rparr>"
    by (simp add: advance_def Let_def)
  note rr = run_reveals [OF r, of ?s0 j]
  show "timers (advance dt st) = [p \<leftarrow> timers st. \<not> fst p \<le> now st + dt]"
    and "observed (advance dt st) = observed st" and "now (advance dt st) = now st + dt"
    and "uncaught (advance dt st) = uncaught st"
    using rr by (simp_all add: adv)
  have "(AddVisible j \<in> snd ` set ?due) = (\<exists>d \<le> now st + dt. (d, AddVisible j) \<in> set (timers st))"
    by force
  moreover have "attrs_of j (advance dt st) = attrs_of j (foldl (\<lambda>s p. run_timer p s) ?s0 ?due)"
    unfolding adv by (rule attrs_of_same_doc) simp_all
  moreover have "attrs_of j ?s0 = attrs_of j st"
    by (rule attrs_of_same_doc) simp_all
  ultimately show "attrs_of j (advance dt st) =
           map_option (\<lambda>a. if \<exists>d \<le> now st + dt. (d, AddVisible j) \<in> set (timers st) then addvis a else a)
             (attrs_of j st)"
    using rr by simp
qed


lemma notify_single:
  "i \<in> set (observed st) \<Longrightarrow> notify pf [(i, True)] st = revealEntry pf (i, True) st"
  by (simp add: notify_def revealCallback_def)

lemma is_visible_addvis:
  "attrs_of i st = Some (addvis a) \<Longrightarrow> is_visible i st"
  by (simp add: is_visible_def addvis_def)

text \<open>
  C10. For an element whose \<^verbatim>\<open>data-delay\<close> is a non-empty string that converts to
  \<^verbatim>\<open>NaN\<close>, the product with 100 is \<^verbatim>\<open>NaN\<close>, and the callback does what it does for
  the delay 0: it starts the timer with the delay 0 and stops observing the element.
  With no other timer pending the element is visible as soon as the timers due at that
  moment have run, the clock has not moved, and nothing was raised.
\<close>

theorem non_numeric_delay_reveals_at_once:
  "attrs_of i st = Some a \<and> data_delay a = Some s \<and> s \<noteq> [] \<and> toNumber pf s = NaN \<longrightarrow>
     js_times pf (js_or (dataset_delay i st) (Numv (Num 0))) 100 = NaN \<and>
     revealEntry pf (i, True) st =
       (setTimeout (AddVisible i) 0 st)\<lparr>observed := removeAll i (observed st)\<rparr> \<and>
     (timers st = [] \<and> i \<in> set (observed st) \<longrightarrow>
        is_visible i (advance 0 (notify pf [(i, True)] st)) \<and>
        uncaught (advance 0 (notify pf [(i, True)] st)) = uncaught st \<and>
        now (advance 0 (notify pf [(i, True)] st)) = now st)"
proof (intro impI conjI)
  assume h: "attrs_of i st = Some a \<and> data_delay a = Some s \<and> s \<noteq> [] \<and> toNumber pf s = NaN"
  then have a: "attrs_of i st = Some a" and d: "data_delay a = Some s" and s: "s \<noteq> []"
    and n: "toNumber pf s = NaN" by simp_all
  show "js_times pf (js_or (dataset_delay i st) (Numv (Num 0))) 100 = NaN"
    by (simp add: dataset_delay_attrs a d s n js_or_def js_times_def)
  show r: "revealEntry pf (i, True) st =
       (setTimeout (AddVisible i) 0 st)\<lparr>observed := removeAll i (observed st)\<rparr>"
    by (simp only: revealEntry_hit [OF a] reveal_timeout_cases(3) [OF d s n])
  assume q: "timers st = [] \<and> i \<in> set (observed st)"
  let ?s = "notify pf [(i, True)] st"
  have e: "?s = (setTimeout (AddVisible i) 0 st)\<lparr>observed := removeAll i (observed st)\<rparr>"
    using q r by (simp add: notify_single)
  have t: "timers ?s = [(now st, AddVisible i)]" and nw: "now ?s = now st"
    and u: "uncaught ?s = uncaught st"
    using q by (simp_all add: e setTimeout_def)
  have l: "list_all (\<lambda>p. is_reveal (snd p)) (timers ?s)" by (simp add: t)
  have "attrs_of i ?s = Some a"
    using a attrs_of_same_doc [of ?s st i] by (simp add: e setTimeout_def)
  then have "attrs_of i (advance 0 ?s) = Some (addvis a)"
    by (simp add: advance_reveals(5) [OF l] t nw)
  then show "is_visible i (advance 0 ?s)" by (rule is_visible_addvis)
  show "uncaught (advance 0 ?s) = uncaught st" by (simp add: advance_reveals(4) [OF l] u)
  show "now (advance 0 ?s) = now st" by (simp add: advance_reveals(3) [OF l] nw)
qed

theorem non_numeric_delay_reveals_at_once_witness:
  "js_times sample_platform (js_or (dataset_delay 2 card_page) (Numv (Num 0))) 100 = NaN \<and>
   is_visible 2 (advance 0 (notify sample_platform [(2, True)] card_page)) \<and>
   uncaught (advance 0 (notify sample_platform [(2, True)] card_page)) = []"
proof -
  have o: "observed card_page = [1, 2, 3]" "timers card_page = []" "uncaught card_page = []"
    and a: "attrs_of 2 card_page = Some (attr (card_node 2 (Some ''soon'')))"
    by (simp_all add: card_page_def initScrollAnimations_def page_def card_node_def elem_def
        doc_nodes_def has_class_def observe_def attrs_of_def find_node_def is_node_def Let_def)
  have d: "data_delay (attr (card_node 2 (Some ''soon''))) = Some ''soon''"
    "toNumber sample_platform ''soon'' = NaN"
    by (simp_all add: card_node_def sample_platform_def decimal_def is_digit_def)
  show ?thesis
    using non_numeric_delay_reveals_at_once [of 2 card_page "attr (card_node 2 (Some ''soon''))" "''soon''"
        sample_platform] o a d
    by simp
qed

section \<open>The reveal over time\<close>












lemma first_hit_wait: "first_hit i t (xs @ [Wait dt]) = first_hit i t xs"
  by (induction i t xs rule: first_hit.induct) simp_all










end
